theory Spec2Isabelle
  imports Complex_Main
begin

section \<open>Snake game (snake\_game.py)\<close>

subsection \<open>Data model\<close>

text \<open>
  The enum \<open>Direction\<close> with its unit vectors. Grid cells are pairs of Python integers.
\<close>

datatype Direction = UP | DOWN | LEFT | RIGHT

type_synonym cell = "int \<times> int"

fun dir_value :: "Direction \<Rightarrow> cell" where
  "dir_value UP = (0, -1)"
| "dir_value DOWN = (0, 1)"
| "dir_value LEFT = (-1, 0)"
| "dir_value RIGHT = (1, 0)"

text \<open>Exceptions that the modelled code can raise.\<close>

datatype py_error =
  IndexError | ValueError | TypeError | AttributeError | ZeroDivisionError | OverflowError

text \<open>
  The result of a call that does return: a value, or an exception that leaves the call.
  A call that never returns is \<open>None\<close> of the surrounding \<open>option\<close>.
\<close>

datatype 'a outcome = Returns 'a | Raises py_error

type_synonym color = "nat \<times> nat \<times> nat"

definition RED :: color where "RED = (255, 0, 0)"
definition ORANGE :: color where "ORANGE = (255, 165, 0)"
definition YELLOW :: color where "YELLOW = (255, 255, 0)"

text \<open>The dictionaries built by \<open>add_particle_effect\<close>, \<open>_add_transition_trail\<close>
  and \<open>spawn_power_up\<close>.\<close>

record particle =
  p_x :: real
  p_y :: real
  p_vx :: real
  p_vy :: real
  p_life :: int
  p_max_life :: int
  p_color :: color

record power_up =
  pu_pos :: cell
  pu_type :: string
  pu_lifespan :: int

text \<open>
  The attributes of \<open>SnakeGame\<close> that the game logic reads or writes (fonts, the drawing
  surface and the colour constants used only for drawing are left out).
\<close>

record snake_game =
  width :: int
  height :: int
  grid_size :: int
  grid_width :: int
  grid_height :: int
  high_score :: int
  particles :: "particle list"
  transition_particles :: "particle list"
  power_ups :: "power_up list"
  power_up_spawn_chance :: real
  last_power_up_score :: int
  paused :: bool
  wrap_around :: bool
  wrap_transition_frames :: int
  snake :: "cell list"
  direction :: Direction
  next_direction :: Direction
  score :: int
  game_over :: bool
  speed_boost :: bool
  base_speed :: int
  boost_speed :: int
  fruit :: cell

subsection \<open>Direction requests\<close>

text \<open>The two dictionaries of \<open>change_direction\<close>.\<close>

definition mapping :: "string \<Rightarrow> Direction option" where
  "mapping s =
     (if s = ''UP'' then Some UP
      else if s = ''DOWN'' then Some DOWN
      else if s = ''LEFT'' then Some LEFT
      else if s = ''RIGHT'' then Some RIGHT
      else None)"

fun opposite :: "Direction \<Rightarrow> Direction" where
  "opposite UP = DOWN"
| "opposite DOWN = UP"
| "opposite LEFT = RIGHT"
| "opposite RIGHT = LEFT"

text \<open>The name under which \<open>mapping\<close> knows a direction.\<close>

fun dir_name :: "Direction \<Rightarrow> string" where
  "dir_name UP = ''UP''"
| "dir_name DOWN = ''DOWN''"
| "dir_name LEFT = ''LEFT''"
| "dir_name RIGHT = ''RIGHT''"

definition change_direction :: "string \<Rightarrow> snake_game \<Rightarrow> snake_game" where
  "change_direction new_direction g =
     (if game_over g \<or> paused g then g
      else case mapping new_direction of
             None \<Rightarrow> g
           | Some new_dir \<Rightarrow>
               if new_dir \<noteq> opposite (direction g)
               then g\<lparr>next_direction := new_dir\<rparr>
               else g)"

definition toggle_pause :: "snake_game \<Rightarrow> snake_game" where
  "toggle_pause g = g\<lparr>paused := \<not> paused g\<rparr>"

definition toggle_wrap :: "snake_game \<Rightarrow> snake_game" where
  "toggle_wrap g = g\<lparr>wrap_around := \<not> wrap_around g\<rparr>"

subsection \<open>The persisted high score\<close>

text \<open>
  The file \<open>high_score.json\<close> is outside the program. It is modelled by what
  \<open>load_high_score\<close> can find there: no file (\<open>os.path.exists\<close> is false), a file that
  cannot be opened or whose text is not JSON (\<open>open\<close> or \<open>json.load\<close> raises), or a
  JSON document. \<open>json.dump\<close> followed by \<open>json.load\<close> is taken to give back the document
  that was written, which is the contract of the library. A JSON object stands for the
  Python dictionary that \<open>json.load\<close> builds, as an association list in which the first
  binding of a key counts; a JSON string is kept as its bytes. \<open>writable\<close> says whether
  \<open>open(..., 'w')\<close> succeeds.
\<close>

datatype json =
    JNull
  | JBool bool
  | JInt int
  | JReal real
  | JNaN
  | JInfinity bool
  | JStr string
  | JArr "json list"
  | JObj "(string \<times> json) list"

datatype file_state = Missing | Unreadable | Doc json

record disk =
  hs_file :: file_state
  writable :: bool

text \<open>
  Python converts between integers and decimal text only up to 4300 digits (the default
  of \<open>sys.int_max_str_digits\<close>): beyond that, printing an integer and parsing an integer
  literal raise \<open>ValueError\<close>. So \<open>json.load\<close> raises on a document that holds a longer
  integer anywhere, and \<open>json.dump\<close> raises on a longer integer after the text before it
  has been written.
\<close>

definition int_max_str_digits :: nat where
  "int_max_str_digits = 4300"

definition int_fits :: "int \<Rightarrow> bool" where
  "int_fits n = (\<bar>n\<bar> < 10 ^ int_max_str_digits)"

primrec loadable :: "json \<Rightarrow> bool" where
  "loadable JNull = True"
| "loadable (JBool b) = True"
| "loadable (JInt n) = int_fits n"
| "loadable (JReal x) = True"
| "loadable JNaN = True"
| "loadable (JInfinity b) = True"
| "loadable (JStr s) = True"
| "loadable (JArr xs) = list_all (\<lambda>b. b) (map loadable xs)"
| "loadable (JObj kvs) = list_all snd (map (map_prod id loadable) kvs)"

text \<open>
  Python's \<open>int()\<close> on a value that came out of \<open>json.load\<close>. What \<open>int()\<close> makes of a
  string (which whitespace it strips, which digits and separators it accepts) is the
  parameter \<open>str_to_int\<close>, with \<open>None\<close> for the strings it rejects; a float is truncated
  towards zero.
\<close>

fun py_int :: "(string \<Rightarrow> int option) \<Rightarrow> json \<Rightarrow> py_error + int" where
  "py_int str_to_int (JInt n) = Inr n"
| "py_int str_to_int (JBool b) = Inr (if b then 1 else 0)"
| "py_int str_to_int (JReal x) = Inr (if 0 \<le> x then \<lfloor>x\<rfloor> else \<lceil>x\<rceil>)"
| "py_int str_to_int JNaN = Inl ValueError"
| "py_int str_to_int (JInfinity b) = Inl OverflowError"
| "py_int str_to_int (JStr s) =
     (case str_to_int s of None \<Rightarrow> Inl ValueError | Some n \<Rightarrow> Inr n)"
| "py_int str_to_int JNull = Inl TypeError"
| "py_int str_to_int (JArr xs) = Inl TypeError"
| "py_int str_to_int (JObj kvs) = Inl TypeError"

text \<open>The body of the \<open>try\<close> block of \<open>load_high_score\<close>; \<open>Inr None\<close> is falling out
  of the \<open>if\<close> without a \<open>return\<close>.\<close>

definition load_high_score_try ::
  "(string \<Rightarrow> int option) \<Rightarrow> disk \<Rightarrow> py_error + int option" where
  "load_high_score_try str_to_int d =
     (case hs_file d of
        Missing \<Rightarrow> Inr None
      | Unreadable \<Rightarrow> Inl ValueError
      | Doc j \<Rightarrow>
          if \<not> loadable j then Inl ValueError
          else
            (case j of
               JObj kvs \<Rightarrow>
                 (case py_int str_to_int
                         (case map_of kvs ''high_score'' of None \<Rightarrow> JInt 0 | Some v \<Rightarrow> v) of
                    Inl e \<Rightarrow> Inl e
                  | Inr n \<Rightarrow> Inr (Some n))
             | _ \<Rightarrow> Inl AttributeError))"

text \<open>\<open>load_high_score\<close> with its \<open>except Exception: pass\<close> and the final
  \<open>return 0\<close>.\<close>

definition load_high_score :: "(string \<Rightarrow> int option) \<Rightarrow> disk \<Rightarrow> int outcome" where
  "load_high_score str_to_int d =
     (case load_high_score_try str_to_int d of
        Inr (Some n) \<Rightarrow> Returns n
      | Inr None \<Rightarrow> Returns 0
      | Inl e \<Rightarrow> Returns 0)"

text \<open>
  \<open>save_high_score\<close>: \<open>high_score\<close> is an integer, so \<open>int(self.high_score)\<close> is the
  integer itself. When the file cannot be opened nothing changes. When \<open>json.dump\<close>
  raises on an integer of more than 4300 digits, the file has been truncated by
  \<open>open\<close> and holds the unfinished text. Both exceptions are swallowed.
\<close>

definition save_high_score :: "snake_game \<Rightarrow> disk \<Rightarrow> disk" where
  "save_high_score g d =
     (if writable d then
        (if int_fits (high_score g)
         then d\<lparr>hs_file := Doc (JObj [(''high_score'', JInt (high_score g))])\<rparr>
         else d\<lparr>hs_file := Unreadable\<rparr>)
      else d)"

subsection \<open>The random number generator\<close>

text \<open>
  Python's \<open>random\<close> module is an oracle: \<open>int_src\<close> answers the successive calls of
  \<open>random.randint\<close> and \<open>real_src\<close> the successive calls of \<open>random.uniform\<close> and
  \<open>random.random\<close> (with numbers meant to lie in the unit interval); the two positions
  count the calls made so far. \<open>randint a b\<close> maps the raw answer into \<open>a..b\<close>, so
  that every result is in range and every value of the range can be a result.
\<close>

record rng =
  int_src :: "nat \<Rightarrow> int"
  int_pos :: nat
  real_src :: "nat \<Rightarrow> real"
  real_pos :: nat

definition randint :: "int \<Rightarrow> int \<Rightarrow> rng \<Rightarrow> int" where
  "randint a b r = a + int_src r (int_pos r) mod (b - a + 1)"

definition skip_int :: "rng \<Rightarrow> rng" where
  "skip_int r = r\<lparr>int_pos := Suc (int_pos r)\<rparr>"

definition random :: "rng \<Rightarrow> real" where
  "random r = real_src r (real_pos r)"

definition uniform :: "real \<Rightarrow> real \<Rightarrow> rng \<Rightarrow> real" where
  "uniform a b r = a + (b - a) * real_src r (real_pos r)"

definition skip_real :: "rng \<Rightarrow> rng" where
  "skip_real r = r\<lparr>real_pos := Suc (real_pos r)\<rparr>"

subsection \<open>Visual effects\<close>

text \<open>The loop \<open>for _ in range(n)\<close> of \<open>add_particle_effect\<close>: each round draws
  \<open>vx\<close>, then \<open>vy\<close>, and appends one particle.\<close>

fun add_particle_loop ::
  "nat \<Rightarrow> int \<Rightarrow> int \<Rightarrow> color \<Rightarrow> snake_game \<Rightarrow> rng \<Rightarrow> snake_game \<times> rng" where
  "add_particle_loop 0 x y c g r = (g, r)"
| "add_particle_loop (Suc n) x y c g r =
     (let vx = uniform (-4) 4 r;
          r1 = skip_real r;
          vy = uniform (-4) 4 r1;
          r2 = skip_real r1;
          particle = \<lparr>p_x = of_int (x * grid_size g + grid_size g div 2),
                      p_y = of_int (y * grid_size g + grid_size g div 2),
                      p_vx = vx, p_vy = vy, p_life = 40, p_max_life = 40, p_color = c\<rparr>
      in add_particle_loop n x y c (g\<lparr>particles := particles g @ [particle]\<rparr>) r2)"

definition add_particle_effect ::
  "int \<Rightarrow> int \<Rightarrow> color \<Rightarrow> snake_game \<Rightarrow> rng \<Rightarrow> snake_game \<times> rng" where
  "add_particle_effect x y c g r = add_particle_loop 12 x y c g r"

fun add_trail_loop ::
  "nat \<Rightarrow> int \<Rightarrow> int \<Rightarrow> snake_game \<Rightarrow> rng \<Rightarrow> snake_game \<times> rng" where
  "add_trail_loop 0 grid_x grid_y g r = (g, r)"
| "add_trail_loop (Suc n) grid_x grid_y g r =
     (let vx = uniform (-1) 1 r;
          r1 = skip_real r;
          vy = uniform (-1) 1 r1;
          r2 = skip_real r1;
          particle = \<lparr>p_x = of_int (grid_x * grid_size g + grid_size g div 2),
                      p_y = of_int (grid_y * grid_size g + grid_size g div 2),
                      p_vx = vx, p_vy = vy,
                      p_life = wrap_transition_frames g,
                      p_max_life = wrap_transition_frames g,
                      p_color = (0, 200, 255)\<rparr>
      in add_trail_loop n grid_x grid_y
           (g\<lparr>transition_particles := transition_particles g @ [particle]\<rparr>) r2)"

definition add_transition_trail ::
  "int \<Rightarrow> int \<Rightarrow> snake_game \<Rightarrow> rng \<Rightarrow> snake_game \<times> rng" where
  "add_transition_trail grid_x grid_y g r = add_trail_loop 8 grid_x grid_y g r"

text \<open>
  \<open>update_particles\<close> and \<open>update_power_ups\<close> walk over a copy of the list, age each
  entry in place and \<open>remove\<close> it when it has expired. \<open>remove\<close> deletes the first entry
  equal to the expired one; every entry before it in the list has already been aged and
  kept, so it is alive and differs, and the entry deleted is the expired one itself.
\<close>

fun age_particles :: "particle list \<Rightarrow> particle list" where
  "age_particles [] = []"
| "age_particles (p # ps) =
     (let p1 = p\<lparr>p_x := p_x p + p_vx p, p_y := p_y p + p_vy p,
                  p_vy := p_vy p + 2 / 10, p_life := p_life p - 1\<rparr>
      in if p_life p1 \<le> 0 then age_particles ps else p1 # age_particles ps)"

definition update_particles :: "snake_game \<Rightarrow> snake_game" where
  "update_particles g = g\<lparr>particles := age_particles (particles g)\<rparr>"

fun age_power_ups :: "power_up list \<Rightarrow> power_up list" where
  "age_power_ups [] = []"
| "age_power_ups (pu # pus) =
     (let pu1 = pu\<lparr>pu_lifespan := pu_lifespan pu - 1\<rparr>
      in if pu_lifespan pu1 \<le> 0 then age_power_ups pus else pu1 # age_power_ups pus)"

definition update_power_ups :: "snake_game \<Rightarrow> snake_game" where
  "update_power_ups g = g\<lparr>power_ups := age_power_ups (power_ups g)\<rparr>"

subsection \<open>Spawning\<close>

text \<open>
  The \<open>while True\<close> loops of \<open>spawn_fruit\<close> and \<open>spawn_power_up\<close> draw cells until one
  is free. They need not end, so they are partial functions: \<open>None\<close> is a loop that runs
  forever. \<open>random.randint(0, n - 1)\<close> raises \<open>ValueError\<close> when the range is empty.
\<close>

partial_function (option) spawn_fruit_loop ::
  "snake_game \<Rightarrow> rng \<Rightarrow> (cell \<times> rng) outcome option" where
  "spawn_fruit_loop g r =
     (if grid_width g - 1 < 0 then Some (Raises ValueError)
      else if grid_height g - 1 < 0 then Some (Raises ValueError)
      else
        let x = randint 0 (grid_width g - 1) r;
            r1 = skip_int r;
            y = randint 0 (grid_height g - 1) r1;
            r2 = skip_int r1
        in if (x, y) \<notin> set (snake g) \<and> (x, y) \<notin> set (map pu_pos (power_ups g))
           then Some (Returns ((x, y), r2))
           else spawn_fruit_loop g r2)"

partial_function (option) spawn_power_up_loop ::
  "snake_game \<Rightarrow> rng \<Rightarrow> (cell \<times> rng) outcome option" where
  "spawn_power_up_loop g r =
     (if grid_width g - 1 < 0 then Some (Raises ValueError)
      else if grid_height g - 1 < 0 then Some (Raises ValueError)
      else
        let x = randint 0 (grid_width g - 1) r;
            r1 = skip_int r;
            y = randint 0 (grid_height g - 1) r1;
            r2 = skip_int r1
        in if (x, y) \<notin> set (snake g) \<and> (x, y) \<noteq> fruit g
           then Some (Returns ((x, y), r2))
           else spawn_power_up_loop g r2)"

definition spawn_power_up :: "snake_game \<Rightarrow> rng \<Rightarrow> (snake_game \<times> rng) outcome option" where
  "spawn_power_up g r =
     (case spawn_power_up_loop g r of
        None \<Rightarrow> None
      | Some (Raises e) \<Rightarrow> Some (Raises e)
      | Some (Returns (c, r1)) \<Rightarrow>
          Some (Returns
            (g\<lparr>power_ups := power_ups g @
                  [\<lparr>pu_pos = c, pu_type = ''star'', pu_lifespan = 200\<rparr>]\<rparr>, r1)))"

text \<open>\<open>and\<close> is short-circuit: \<open>random.random()\<close> is called only when 30 points have
  been scored since the last power-up.\<close>

definition spawn_fruit :: "snake_game \<Rightarrow> rng \<Rightarrow> (snake_game \<times> rng) outcome option" where
  "spawn_fruit g r =
     (case spawn_fruit_loop g r of
        None \<Rightarrow> None
      | Some (Raises e) \<Rightarrow> Some (Raises e)
      | Some (Returns (c, r1)) \<Rightarrow>
          let g1 = g\<lparr>fruit := c\<rparr> in
          if score g1 - last_power_up_score g1 \<ge> 30
          then
            (if random r1 < power_up_spawn_chance g1
             then
               (case spawn_power_up g1 (skip_real r1) of
                  None \<Rightarrow> None
                | Some (Raises e) \<Rightarrow> Some (Raises e)
                | Some (Returns (g2, r2)) \<Rightarrow>
                    Some (Returns (g2\<lparr>last_power_up_score := score g2\<rparr>, r2)))
             else Some (Returns (g1, skip_real r1)))
          else Some (Returns (g1, r1)))"

subsection \<open>One tick\<close>

text \<open>The block that both collision branches of \<open>update\<close> run before they return.\<close>

definition end_game :: "snake_game \<Rightarrow> disk \<Rightarrow> snake_game \<times> disk" where
  "end_game g d =
     (let g1 = g\<lparr>game_over := True\<rparr> in
      if score g1 > high_score g1
      then (let g2 = g1\<lparr>high_score := score g1\<rparr> in (g2, save_high_score g2 d))
      else (g1, d))"

text \<open>The wrap-around branch: the cell the head re-enters at, and the trail left at the
  edge it crossed.\<close>

definition wrap_head :: "cell \<Rightarrow> snake_game \<Rightarrow> rng \<Rightarrow> cell \<times> snake_game \<times> rng" where
  "wrap_head new_head g r =
     (if fst new_head < 0 then
        (let nh = (grid_width g - 1, snd new_head);
             (g1, r1) = add_transition_trail 0 (snd nh) g r
         in (nh, g1, r1))
      else if fst new_head \<ge> grid_width g then
        (let nh = (0, snd new_head);
             (g1, r1) = add_transition_trail (grid_width g - 1) (snd nh) g r
         in (nh, g1, r1))
      else if snd new_head < 0 then
        (let nh = (fst new_head, grid_height g - 1);
             (g1, r1) = add_transition_trail (fst nh) 0 g r
         in (nh, g1, r1))
      else if snd new_head \<ge> grid_height g then
        (let nh = (fst new_head, 0);
             (g1, r1) = add_transition_trail (fst nh) (grid_height g - 1) g r
         in (nh, g1, r1))
      else (new_head, g, r))"

text \<open>The loop over a copy of \<open>power_ups\<close>; \<open>remove1\<close> is \<open>list.remove\<close>.\<close>

fun power_up_collision ::
  "cell \<Rightarrow> power_up list \<Rightarrow> snake_game \<Rightarrow> rng \<Rightarrow> snake_game \<times> rng" where
  "power_up_collision new_head [] g r = (g, r)"
| "power_up_collision new_head (pu # pus) g r =
     (if new_head = pu_pos pu then
        (let g1 = g\<lparr>score := score g + 20\<rparr>;
             (g2, r2) = add_particle_effect (fst new_head) (snd new_head) YELLOW g1 r;
             g3 = g2\<lparr>power_ups := remove1 pu (power_ups g2)\<rparr>
         in power_up_collision new_head pus g3 r2)
      else power_up_collision new_head pus g r)"

text \<open>\<open>update\<close> from the self-collision check on, for the head cell \<open>new_head\<close>.\<close>

definition move_to ::
  "cell \<Rightarrow> snake_game \<Rightarrow> disk \<Rightarrow> rng \<Rightarrow> (snake_game \<times> disk \<times> rng) outcome option" where
  "move_to new_head g d r =
     (if new_head \<in> set (snake g) then
        (let (g1, d1) = end_game g d in Some (Returns (g1, d1, r)))
      else
        let g1 = g\<lparr>snake := new_head # snake g\<rparr> in
        case (if new_head = fruit g1 then
                (let g2 = g1\<lparr>score := score g1 + 10\<rparr>;
                     (g3, r3) = add_particle_effect (fst new_head) (snd new_head) RED g2 r
                 in spawn_fruit g3 r3)
              else Some (Returns (g1\<lparr>snake := butlast (snake g1)\<rparr>, r))) of
          None \<Rightarrow> None
        | Some (Raises e) \<Rightarrow> Some (Raises e)
        | Some (Returns (g4, r4)) \<Rightarrow>
            (let (g5, r5) = power_up_collision new_head (power_ups g4) g4 r4;
                 g6 = update_particles g5;
                 g7 = update_power_ups g6
             in Some (Returns (g7, d, r5))))"

definition update ::
  "snake_game \<Rightarrow> disk \<Rightarrow> rng \<Rightarrow> (snake_game \<times> disk \<times> rng) outcome option" where
  "update g d r =
     (if game_over g \<or> paused g then Some (Returns (g, d, r))
      else
        let g1 = g\<lparr>direction := next_direction g\<rparr> in
        case snake g1 of
          [] \<Rightarrow> Some (Raises IndexError)
        | (head_x, head_y) # rest \<Rightarrow>
            (let (dx, dy) = dir_value (direction g1);
                 new_head = (head_x + dx, head_y + dy)
             in if wrap_around g1 then
                  (let (nh, g2, r2) = wrap_head new_head g1 r in move_to nh g2 d r2)
                else if fst new_head < 0 \<or> fst new_head \<ge> grid_width g1 \<or>
                        snd new_head < 0 \<or> snd new_head \<ge> grid_height g1 then
                  (let (g2, d2) = end_game g1 d in Some (Returns (g2, d2, r)))
                else move_to new_head g1 d r))"

text \<open>The head cell that \<open>update\<close> computes before its collision checks: the cell in
  front of the head, wrapped to the opposite edge in wrap mode.\<close>

definition next_head :: "snake_game \<Rightarrow> cell" where
  "next_head g =
     (let (head_x, head_y) = hd (snake g);
          (dx, dy) = dir_value (next_direction g);
          new_head = (head_x + dx, head_y + dy)
      in if wrap_around g then
           (if fst new_head < 0 then (grid_width g - 1, snd new_head)
            else if fst new_head \<ge> grid_width g then (0, snd new_head)
            else if snd new_head < 0 then (fst new_head, grid_height g - 1)
            else if snd new_head \<ge> grid_height g then (fst new_head, 0)
            else new_head)
         else new_head)"

definition in_grid :: "snake_game \<Rightarrow> cell \<Rightarrow> bool" where
  "in_grid g c = (0 \<le> fst c \<and> fst c < grid_width g \<and> 0 \<le> snd c \<and> snd c < grid_height g)"

subsection \<open>Restart\<close>

definition reset_game :: "snake_game \<Rightarrow> rng \<Rightarrow> (snake_game \<times> rng) outcome option" where
  "reset_game g r =
     (if grid_size g = 0 then Some (Raises ZeroDivisionError)
      else
      let gw = max 4 (width g div grid_size g);
          gh = max 4 (height g div grid_size g);
          start_x = gw div 2;
          start_y = gh div 2
      in spawn_fruit
           (g\<lparr>grid_width := gw, grid_height := gh,
              snake := [(start_x, start_y), (start_x - 1, start_y), (start_x - 2, start_y)],
              direction := RIGHT, next_direction := RIGHT, score := 0, game_over := False,
              speed_boost := False, base_speed := 6, boost_speed := 12, particles := [],
              transition_particles := [], power_ups := [], paused := False\<rparr>) r)"

definition handle_restart ::
  "string option \<Rightarrow> snake_game \<Rightarrow> rng \<Rightarrow> (snake_game \<times> rng) outcome option" where
  "handle_restart gesture g r =
     (if game_over g \<and> gesture = Some ''UP'' then reset_game g r else Some (Returns (g, r)))"

definition get_current_speed :: "snake_game \<Rightarrow> int" where
  "get_current_speed g = (if speed_boost g then boost_speed g else base_speed g)"

section \<open>Gesture interpreter (gesture\_control.py)\<close>

subsection \<open>Frames and detector results\<close>

text \<open>
  The MediaPipe detector is outside the program. A frame is modelled by its shape and by
  what \<open>self.hands.process\<close> does on it: it raises, or it returns the landmarks of the
  hands it found (the three landmarks the code reads) and the handedness scores
  (\<open>classification[0].score\<close> of each entry). An absent list (\<open>None\<close>) and an empty list
  are both falsy and both modelled by \<open>[]\<close>. NumPy's floating-point numbers are modelled
  by real numbers.
\<close>

type_synonym point = "real \<times> real"

record hand_landmarks =
  WRIST :: point
  THUMB_TIP :: point
  INDEX_FINGER_TIP :: point

record results =
  multi_hand_landmarks :: "hand_landmarks list"
  multi_handedness :: "real list"

datatype detection = Throws | Found results

record frame =
  shape :: "int \<times> int"
  process :: detection

text \<open>What has been drawn on the copy of the frame, in drawing order.\<close>

datatype overlay =
    Landmarks hand_landmarks
  | BoostText
  | BoostCircle int int
  | DirectionText string
  | ConfidenceBar real
  | CenterBox
  | StatusText string
  | GestureError

record annotated_frame =
  base :: frame
  overlays :: "overlay list"

definition draw :: "overlay \<Rightarrow> annotated_frame \<Rightarrow> annotated_frame" where
  "draw ov a = a\<lparr>overlays := overlays a @ [ov]\<rparr>"

subsection \<open>Gesture state\<close>

record gesture_control =
  previous_position :: "point option"
  position_history :: "point list"
  current_direction :: "string option"
  gesture_cooldown :: int
  no_hand_frames :: int
  last_confidence :: real

text \<open>The attributes that are set in \<open>__init__\<close> and never assigned again.\<close>

definition max_history :: nat where "max_history = 6"
definition max_cooldown :: int where "max_cooldown = 4"
definition max_no_hand_frames :: int where "max_no_hand_frames = 12"

definition init_gesture_control :: gesture_control where
  "init_gesture_control =
     \<lparr>previous_position = None, position_history = [], current_direction = None,
      gesture_cooldown = 0, no_hand_frames = 0, last_confidence = 0\<rparr>"

definition reset_gesture_state :: "gesture_control \<Rightarrow> gesture_control" where
  "reset_gesture_state s =
     s\<lparr>previous_position := None, position_history := [], current_direction := None,
       gesture_cooldown := 0, no_hand_frames := 0\<rparr>"

subsection \<open>Processing one frame\<close>

definition mean :: "point list \<Rightarrow> point" where
  "mean ps = (sum_list (map fst ps) / real (length ps), sum_list (map snd ps) / real (length ps))"

definition norm2 :: "point \<Rightarrow> real" where
  "norm2 v = sqrt (fst v * fst v + snd v * snd v)"

text \<open>The two comparisons of a Euclidean length with a bound that the code makes:
  \<open>dist > dynamic_thresh\<close> and \<open>distance < 0.05\<close>.\<close>

definition longer_than :: "point \<Rightarrow> real \<Rightarrow> bool" where
  "longer_than v t = (norm2 v > t)"

definition shorter_than :: "point \<Rightarrow> real \<Rightarrow> bool" where
  "shorter_than v t = (norm2 v < t)"

definition py_trunc :: "real \<Rightarrow> int" where
  "py_trunc x = (if 0 \<le> x then \<lfloor>x\<rfloor> else \<lceil>x\<rceil>)"

text \<open>The direction named by a movement vector that is long enough.\<close>

definition movement_direction :: "point \<Rightarrow> string" where
  "movement_direction movement =
     (if \<bar>fst movement\<bar> > \<bar>snd movement\<bar>
      then (if fst movement > 0 then ''RIGHT'' else ''LEFT'')
      else (if snd movement > 0 then ''DOWN'' else ''UP''))"

text \<open>The body of the loop over the detected hands. It carries the state, the pinch flag
  and the annotated frame.\<close>

definition process_hand ::
  "real \<Rightarrow> frame \<Rightarrow> hand_landmarks \<Rightarrow> gesture_control \<times> bool \<times> annotated_frame \<Rightarrow>
   gesture_control \<times> bool \<times> annotated_frame" where
  "process_hand dynamic_thresh fr hand acc =
     (let (s, pinch, a) = acc;
          a1 = draw (Landmarks hand) a;
          current_pos = WRIST hand;
          h1 = position_history s @ [current_pos];
          h2 = (if length h1 > max_history then tl h1 else h1);
          s1 = s\<lparr>position_history := h2\<rparr>;
          smoothed = mean h2;
          s2 = (case previous_position s1 of
                  None \<Rightarrow> s1
                | Some prev \<Rightarrow>
                    if gesture_cooldown s1 \<le> 0 then
                      (let movement = (fst smoothed - fst prev, snd smoothed - snd prev)
                       in if longer_than movement dynamic_thresh then
                            (let direction = movement_direction movement
                             in if Some direction \<noteq> current_direction s1
                                then s1\<lparr>current_direction := Some direction,
                                        gesture_cooldown := max_cooldown\<rparr>
                                else s1)
                          else s1)
                    else s1);
          thumb = THUMB_TIP hand;
          index = INDEX_FINGER_TIP hand;
          is_pinching =
            shorter_than (fst thumb - fst index, snd thumb - snd index) (5 / 100);
          a2 = (if is_pinching
                then draw (BoostCircle (py_trunc (fst thumb * of_int (snd (shape fr))))
                                       (py_trunc (snd thumb * of_int (fst (shape fr)))))
                       (draw BoostText a1)
                else a1)
      in (s2\<lparr>previous_position := Some smoothed\<rparr>, is_pinching, a2))"

fun process_hands ::
  "real \<Rightarrow> frame \<Rightarrow> hand_landmarks list \<Rightarrow> gesture_control \<times> bool \<times> annotated_frame \<Rightarrow>
   gesture_control \<times> bool \<times> annotated_frame" where
  "process_hands dynamic_thresh fr [] acc = acc"
| "process_hands dynamic_thresh fr (hand # hands) acc =
     process_hands dynamic_thresh fr hands (process_hand dynamic_thresh fr hand acc)"

text \<open>The \<open>try\<close> block when the detector has returned \<open>res\<close>.\<close>

definition detect_found ::
  "results \<Rightarrow> frame \<Rightarrow> gesture_control \<Rightarrow> gesture_control \<times> bool \<times> annotated_frame" where
  "detect_found res fr s =
     (let annotated = \<lparr>base = fr, overlays = []\<rparr>;
          s1 = (if multi_hand_landmarks res \<noteq> [] \<and> multi_handedness res \<noteq> []
                then s\<lparr>last_confidence := hd (multi_handedness res)\<rparr>
                else s\<lparr>last_confidence := 0\<rparr>);
          dynamic_thresh =
            (if last_confidence s1 > 8 / 10 then 2 / 100
             else if last_confidence s1 > 5 / 10 then 3 / 100
             else 5 / 100);
          (s2, is_pinching, a2) =
            (if multi_hand_landmarks res \<noteq> [] then
               process_hands dynamic_thresh fr (multi_hand_landmarks res)
                 (s1\<lparr>no_hand_frames := 0\<rparr>, False, annotated)
             else
               (let s1a = s1\<lparr>no_hand_frames := no_hand_frames s1 + 1\<rparr>
                in if no_hand_frames s1a > max_no_hand_frames
                   then (reset_gesture_state s1a, False, annotated)
                   else (s1a, False, annotated)));
          s3 = (if gesture_cooldown s2 > 0
                then s2\<lparr>gesture_cooldown := gesture_cooldown s2 - 1\<rparr>
                else s2);
          a3 = (case current_direction s3 of
                  None \<Rightarrow> a2
                | Some dir \<Rightarrow> if dir \<noteq> [] then draw (DirectionText dir) a2 else a2);
          a4 = draw (ConfidenceBar (last_confidence s3)) a3;
          a5 = draw CenterBox a4;
          status = (if multi_hand_landmarks res \<noteq> [] then ''Hand Detected'' else ''No Hand'');
          a6 = draw (StatusText status) a5
      in (s3, is_pinching, a6))"

text \<open>\<open>detect_gestures\<close>: the new state and the returned triple. When the detector
  raises, the \<open>except\<close> branch draws the error text on the untouched copy.\<close>

definition detect_gestures ::
  "frame \<Rightarrow> gesture_control \<Rightarrow> gesture_control \<times> (string option \<times> bool \<times> annotated_frame)" where
  "detect_gestures fr s =
     (case process fr of
        Throws \<Rightarrow>
          (s, (current_direction s, False, draw GestureError \<lparr>base = fr, overlays = []\<rparr>))
      | Found res \<Rightarrow>
          (let (s1, is_pinching, annotated) = detect_found res fr s
           in (s1, (current_direction s1, is_pinching, annotated))))"

text \<open>The state after a sequence of frames.\<close>

fun run_frames :: "frame list \<Rightarrow> gesture_control \<Rightarrow> gesture_control" where
  "run_frames [] s = s"
| "run_frames (fr # frs) s = run_frames frs (fst (detect_gestures fr s))"

section \<open>Auxiliary notions for the properties\<close>

subsection \<open>Game\<close>


text \<open>The cell in front of the head, in the queued direction, and the cell it wraps to
  when it lies beyond an edge.\<close>

definition front_cell :: "snake_game \<Rightarrow> cell" where
  "front_cell g =
     (let (head_x, head_y) = hd (snake g);
          (dx, dy) = dir_value (next_direction g)
      in (head_x + dx, head_y + dy))"

definition wrap_cell :: "snake_game \<Rightarrow> cell \<Rightarrow> cell" where
  "wrap_cell g c =
     (if fst c < 0 then (grid_width g - 1, snd c)
      else if fst c \<ge> grid_width g then (0, snd c)
      else if snd c < 0 then (fst c, grid_height g - 1)
      else if snd c \<ge> grid_height g then (fst c, 0)
      else c)"

text \<open>The cell at which \<open>update\<close> leaves the transition trail when the cell in front
  of the head lies beyond an edge.\<close>

definition wrap_point :: "snake_game \<Rightarrow> cell \<Rightarrow> cell" where
  "wrap_point g c =
     (if fst c < 0 then (0, snd c)
      else if fst c \<ge> grid_width g then (grid_width g - 1, snd c)
      else if snd c < 0 then (fst c, 0)
      else (fst c, grid_height g - 1))"

text \<open>A particle of a transition trail of game \<open>g\<close> at cell \<open>c\<close>.\<close>

definition trail_particle :: "snake_game \<Rightarrow> cell \<Rightarrow> particle \<Rightarrow> bool" where
  "trail_particle g c p =
     (p_x p = of_int (fst c * grid_size g + grid_size g div 2) \<and>
      p_y p = of_int (snd c * grid_size g + grid_size g div 2) \<and>
      p_life p = wrap_transition_frames g \<and> p_max_life p = wrap_transition_frames g \<and>
      p_color p = (0, 200, 255))"

text \<open>Every cell of the grid is taken by the snake \<open>sn\<close> or by a power-up of \<open>g\<close>.\<close>

definition grid_full :: "snake_game \<Rightarrow> cell list \<Rightarrow> bool" where
  "grid_full g sn =
     (1 \<le> grid_width g \<and> 1 \<le> grid_height g \<and>
      list_all (\<lambda>c. c \<in> set sn \<or> c \<in> set (map pu_pos (power_ups g)))
        (List.product [0..grid_width g - 1] [0..grid_height g - 1]))"

text \<open>The fruit lies on no snake segment and on no power-up.\<close>

definition well_placed :: "snake_game \<Rightarrow> bool" where
  "well_placed g =
     (fruit g \<notin> set (snake g) \<and> fruit g \<notin> set (map pu_pos (power_ups g)))"

text \<open>A particle sits at the centre of a grid cell.\<close>

definition at_cell :: "snake_game \<Rightarrow> int \<Rightarrow> int \<Rightarrow> particle \<Rightarrow> bool" where
  "at_cell g x y p =
     (p_x p = of_int (x * grid_size g + grid_size g div 2) \<and>
      p_y p = of_int (y * grid_size g + grid_size g div 2))"

text \<open>The \<open>k\<close>-th cell that the spawning loops draw when they start with generator \<open>r\<close>
  on a grid of the given size.\<close>

definition candidate :: "int \<Rightarrow> int \<Rightarrow> rng \<Rightarrow> nat \<Rightarrow> cell" where
  "candidate gw gh r k =
     (int_src r (int_pos r + 2 * k) mod gw, int_src r (int_pos r + 2 * k + 1) mod gh)"

text \<open>The generator after \<open>n\<close> calls of \<open>random.randint\<close>.\<close>

definition skip_ints :: "nat \<Rightarrow> rng \<Rightarrow> rng" where
  "skip_ints n r = r\<lparr>int_pos := int_pos r + n\<rparr>"

text \<open>Concrete states: the game as \<open>__init__\<close> leaves it for a 400 by 600 pane with the
  fruit at \<open>(3, 3)\<close>, a generator, and a disk without a high-score file.\<close>

definition start_game :: snake_game where
  "start_game =
     \<lparr>width = 400, height = 600, grid_size = 20, grid_width = 20, grid_height = 30,
      high_score = 0, particles = [], transition_particles = [], power_ups = [],
      power_up_spawn_chance = 1 / 10, last_power_up_score = 0, paused = False,
      wrap_around = True, wrap_transition_frames = 3,
      snake = [(10, 15), (9, 15), (8, 15)], direction = RIGHT, next_direction = RIGHT,
      score = 0, game_over = False, speed_boost = False, base_speed = 6, boost_speed = 12,
      fruit = (3, 3)\<rparr>"



definition disk0 :: disk where
  "disk0 = \<lparr>hs_file = Missing, writable = True\<rparr>"




text \<open>A game on an 80 by 80 pane, whose grid has 4 by 4 cells: the snake covers every
  cell but the fruit cell \<open>(3, 0)\<close>, which the head at \<open>(0, 0)\<close> reaches by moving left
  through the edge.\<close>

definition full_grid_game :: snake_game where
  "full_grid_game =
     start_game\<lparr>width := 80, height := 80, grid_width := 4, grid_height := 4,
       snake := [(0, 0), (1, 0), (2, 0), (2, 1), (3, 1), (3, 2), (3, 3), (2, 3), (2, 2),
                 (1, 2), (1, 1), (0, 1), (0, 2), (0, 3), (1, 3)],
       direction := LEFT, next_direction := LEFT, score := 120, fruit := (3, 0)\<rparr>"

text \<open>A paused game, and a game with a power-up on the fruit cell, each with the fruit
  right in front of the head.\<close>

definition paused_fruit_game :: snake_game where
  "paused_fruit_game = start_game\<lparr>fruit := (11, 15), paused := True\<rparr>"

definition bonus_fruit_game :: snake_game where
  "bonus_fruit_game =
     start_game\<lparr>fruit := (11, 15),
                 power_ups := [\<lparr>pu_pos = (11, 15), pu_type = ''star'', pu_lifespan = 200\<rparr>]\<rparr>"

text \<open>A conversion of strings that rejects every string, to run the loader on documents
  without strings.\<close>

definition reject_strings :: "string \<Rightarrow> int option" where
  "reject_strings s = None"



subsection \<open>Gestures\<close>

definition has_hand :: "frame \<Rightarrow> bool" where
  "has_hand fr = (case process fr of Throws \<Rightarrow> False | Found res \<Rightarrow> multi_hand_landmarks res \<noteq> [])"

definition no_hand :: "frame \<Rightarrow> bool" where
  "no_hand fr = (case process fr of Throws \<Rightarrow> False | Found res \<Rightarrow> multi_hand_landmarks res = [])"

text \<open>A frame is processed when the detector returns.\<close>

definition processed :: "frame \<Rightarrow> bool" where
  "processed fr = (process fr \<noteq> Throws)"

text \<open>The loss-of-tracking reset fires on this frame.\<close>

definition reset_fires :: "frame \<Rightarrow> gesture_control \<Rightarrow> bool" where
  "reset_fires fr s = (no_hand fr \<and> no_hand_frames s + 1 > max_no_hand_frames)"

text \<open>A direction change is accepted on this frame: the stored direction is a direction
  afterwards, and another one than before.\<close>

definition accepts_change :: "frame \<Rightarrow> gesture_control \<Rightarrow> bool" where
  "accepts_change fr s =
     (let s1 = fst (detect_gestures fr s)
      in current_direction s1 \<noteq> None \<and> current_direction s1 \<noteq> current_direction s)"

text \<open>The smoothed position that a hand gives, and a frame with no movement: one hand
  whose smoothed position is the previous position.\<close>

definition smoothed_with :: "gesture_control \<Rightarrow> hand_landmarks \<Rightarrow> point" where
  "smoothed_with s hand =
     mean (let h1 = position_history s @ [WRIST hand]
           in if length h1 > max_history then tl h1 else h1)"

definition still_frame :: "frame \<Rightarrow> gesture_control \<Rightarrow> bool" where
  "still_frame fr s =
     (case process fr of
        Throws \<Rightarrow> False
      | Found res \<Rightarrow>
          (case multi_hand_landmarks res of
             [hand] \<Rightarrow> previous_position s = Some (smoothed_with s hand)
           | _ \<Rightarrow> False))"

text \<open>How the loop over the detected hands may change the state: the no-hand count is
  kept; while the cooldown is positive nothing else changes either; a new direction comes
  with a cooldown of \<open>max_cooldown\<close>.\<close>

definition hand_step :: "gesture_control \<Rightarrow> gesture_control \<Rightarrow> bool" where
  "hand_step s s' =
     (no_hand_frames s' = no_hand_frames s \<and>
      (gesture_cooldown s > 0 \<longrightarrow>
         current_direction s' = current_direction s \<and> gesture_cooldown s' = gesture_cooldown s) \<and>
      (current_direction s' \<noteq> current_direction s \<longrightarrow>
         gesture_cooldown s' = max_cooldown \<and> current_direction s' \<noteq> None) \<and>
      (current_direction s' = current_direction s \<longrightarrow> gesture_cooldown s' = gesture_cooldown s))"

text \<open>The gesture fields that a reset clears.\<close>

definition cleared :: "gesture_control \<Rightarrow> bool" where
  "cleared s =
     (position_history s = [] \<and> previous_position s = None \<and> current_direction s = None \<and>
      gesture_cooldown s = 0)"

text \<open>Concrete frames: one open hand with the wrist at a given point, no hand, and a
  frame on which the detector raises.\<close>

definition hand_frame :: "point \<Rightarrow> frame" where
  "hand_frame p =
     \<lparr>shape = (720, 1280),
      process = Found \<lparr>multi_hand_landmarks =
                          [\<lparr>WRIST = p, THUMB_TIP = (0, 0), INDEX_FINGER_TIP = (1, 1)\<rparr>],
                        multi_handedness = [9 / 10]\<rparr>\<rparr>"

definition empty_frame :: frame where
  "empty_frame =
     \<lparr>shape = (720, 1280),
      process = Found \<lparr>multi_hand_landmarks = [], multi_handedness = []\<rparr>\<rparr>"

definition failing_frame :: frame where
  "failing_frame = \<lparr>shape = (720, 1280), process = Throws\<rparr>"

text \<open>The state after a hand has been seen at rest and then a quarter of the frame
  further right: the second frame accepts the direction RIGHT.\<close>

definition seen_once :: gesture_control where
  "seen_once = fst (detect_gestures (hand_frame (1 / 2, 1 / 2)) init_gesture_control)"

definition moved_right :: gesture_control where
  "moved_right = fst (detect_gestures (hand_frame (1, 1 / 2)) seen_once)"

section \<open>Executing the model\<close>

text \<open>The comparisons of lengths without the square root, the digit limit decided at once
  for small integers, and the unfolding equations of the two spawning loops, as code
  equations.\<close>


lemma longer_than_code [code]:
  "longer_than v t = (t < 0 \<or> t * t < fst v * fst v + snd v * snd v)"
proof (cases "t < 0")
  case True
  have "0 \<le> norm2 v" by (simp add: norm2_def)
  with True show ?thesis by (simp add: longer_than_def)
next
  case False
  have "(sqrt (t * t) < sqrt (fst v * fst v + snd v * snd v)) =
        (t * t < fst v * fst v + snd v * snd v)"
    by (rule real_sqrt_less_iff)
  moreover have "sqrt (t * t) = t" using False by simp
  ultimately show ?thesis using False by (simp add: longer_than_def norm2_def)
qed

lemma shorter_than_code [code]:
  "shorter_than v t = (0 < t \<and> fst v * fst v + snd v * snd v < t * t)"
proof (cases "0 < t")
  case False
  have "0 \<le> norm2 v" by (simp add: norm2_def)
  with False show ?thesis by (simp add: shorter_than_def)
next
  case True
  have "(sqrt (fst v * fst v + snd v * snd v) < sqrt (t * t)) =
        (fst v * fst v + snd v * snd v < t * t)"
    by (rule real_sqrt_less_iff)
  moreover have "sqrt (t * t) = t" using True by simp
  ultimately show ?thesis using True by (simp add: shorter_than_def norm2_def)
qed

lemma small_fits: "\<bar>n\<bar> < 10000 \<Longrightarrow> int_fits n"
proof -
  assume a: "\<bar>n\<bar> < 10000"
  have "(10::int) ^ 4 \<le> 10 ^ int_max_str_digits"
    by (rule power_increasing) (simp_all add: int_max_str_digits_def)
  with a show ?thesis by (simp add: int_fits_def)
qed

lemma too_long: "\<not> int_fits (10 ^ int_max_str_digits)"
  by (simp add: int_fits_def)

lemma int_fits_code [code]:
  "int_fits n = (if \<bar>n\<bar> < 10000 then True else \<bar>n\<bar> < 10 ^ int_max_str_digits)"
  using small_fits[of n] by (simp add: int_fits_def)

declare spawn_fruit_loop.simps [code]
declare spawn_power_up_loop.simps [code]


lemma add_particle_loop_game:
  "fst (add_particle_loop n x y c g r) =
   g\<lparr>particles := particles (fst (add_particle_loop n x y c g r))\<rparr>"
proof (induction n arbitrary: g r)
  case 0
  show ?case by simp
next
  case (Suc n)
  show ?case
    apply (simp add: Let_def)
    apply (subst Suc.IH)
    apply simp
    done
qed

lemma add_trail_loop_rng:
  "snd (add_trail_loop n x y g r) = r\<lparr>real_pos := real_pos r + 2 * n\<rparr>"
  by (induction n arbitrary: g r) (simp_all add: Let_def skip_real_def)

lemma add_trail_loop_game:
  "\<exists>ps. fst (add_trail_loop n x y g r) = g\<lparr>transition_particles := transition_particles g @ ps\<rparr>
      \<and> length ps = n \<and> (\<forall>p \<in> set ps. at_cell g x y p)"
proof (induction n arbitrary: g r)
  case 0
  show ?case by simp
next
  case (Suc n)
  let ?vx = "uniform (-1) 1 r"
  let ?vy = "uniform (-1) 1 (skip_real r)"
  let ?p = "\<lparr>p_x = of_int (x * grid_size g + grid_size g div 2),
             p_y = of_int (y * grid_size g + grid_size g div 2),
             p_vx = ?vx, p_vy = ?vy, p_life = wrap_transition_frames g,
             p_max_life = wrap_transition_frames g, p_color = (0, 200, 255)\<rparr>"
  let ?g1 = "g\<lparr>transition_particles := transition_particles g @ [?p]\<rparr>"
  from Suc.IH[of ?g1 "skip_real (skip_real r)"] obtain ps where
    ps: "fst (add_trail_loop n x y ?g1 (skip_real (skip_real r))) =
           ?g1\<lparr>transition_particles := transition_particles ?g1 @ ps\<rparr>"
        "length ps = n" "\<forall>p \<in> set ps. at_cell ?g1 x y p"
    by blast
  have "fst (add_trail_loop (Suc n) x y g r) =
        g\<lparr>transition_particles := transition_particles g @ (?p # ps)\<rparr>"
    using ps(1) by (simp add: Let_def)
  moreover have "length (?p # ps) = Suc n" using ps(2) by simp
  moreover have "\<forall>p \<in> set (?p # ps). at_cell g x y p"
    using ps(3) by (simp add: at_cell_def)
  ultimately show ?case by blast
qed


section \<open>Direction requests\<close>

lemma mapping_dir_name: "mapping (dir_name d) = Some d"
  by (cases d) (simp_all add: mapping_def)

text \<open>
  C4. In a game that is neither paused nor over, \<open>change_direction\<close> called with the
  exact opposite of the active direction leaves the queued \<open>next_direction\<close> unchanged.
\<close>

theorem change_direction_opposite_ignored:
  "\<not> game_over g \<Longrightarrow> \<not> paused g \<Longrightarrow>
   next_direction (change_direction (dir_name (opposite (direction g))) g) = next_direction g"
  by (simp add: change_direction_def mapping_dir_name)

theorem change_direction_opposite_ignored_witness:
  "\<not> game_over start_game \<and> \<not> paused start_game \<and>
   dir_name (opposite (direction start_game)) = ''LEFT'' \<and>
   next_direction (change_direction ''LEFT'' start_game) = next_direction start_game"
  using change_direction_opposite_ignored [of start_game] by (simp add: start_game_def)

text \<open>
  C10. In a game that is paused or over, \<open>change_direction\<close> with any argument leaves
  the queued direction and all other game state unchanged.
\<close>

theorem change_direction_frozen:
  "game_over g \<or> paused g \<Longrightarrow> change_direction new_direction g = g"
  by (auto simp add: change_direction_def)

theorem change_direction_frozen_witness:
  "(game_over (start_game\<lparr>paused := True\<rparr>) \<or> paused (start_game\<lparr>paused := True\<rparr>)) \<and>
   change_direction ''UP'' (start_game\<lparr>paused := True\<rparr>) = start_game\<lparr>paused := True\<rparr>"
  using change_direction_frozen [of "start_game\<lparr>paused := True\<rparr>" "''UP''"] by simp

section \<open>High score persistence\<close>

lemma load_high_score_cases:
  "load_high_score f d =
     (case hs_file d of
        Missing \<Rightarrow> Returns 0
      | Unreadable \<Rightarrow> Returns 0
      | Doc j \<Rightarrow>
          if \<not> loadable j then Returns 0
          else
            (case j of
               JObj kvs \<Rightarrow>
                 (case map_of kvs ''high_score'' of
                    None \<Rightarrow> Returns 0
                  | Some v \<Rightarrow> (case py_int f v of Inl e \<Rightarrow> Returns 0 | Inr n \<Rightarrow> Returns n))
             | _ \<Rightarrow> Returns 0))"
  by (simp add: load_high_score_def load_high_score_try_def
      split: file_state.split json.split option.split sum.split)



theorem save_failure_counterexample:
  "writable disk0 \<and> (0::int) \<le> 10 ^ int_max_str_digits \<and>
   load_high_score reject_strings
     (save_high_score (start_game\<lparr>high_score := 10 ^ int_max_str_digits\<rparr>) disk0) = Returns 0 \<and>
   (10::int) ^ int_max_str_digits \<noteq> 0 \<and>
   load_high_score reject_strings
     (save_high_score (start_game\<lparr>high_score := 120\<rparr>) (disk0\<lparr>writable := False\<rparr>)) =
     Returns 0"
  by (simp add: load_high_score_cases save_high_score_def too_long disk0_def)

section \<open>Gesture interpreter\<close>

text \<open>
  C6. On a frame on which the detector raises, \<open>detect_gestures\<close> returns normally: the
  state is untouched and the result is the last known direction, a boost flag of false
  and the frame with the error overlay.
\<close>

theorem detect_gestures_detector_raises:
  "process fr = Throws \<Longrightarrow>
   detect_gestures fr s =
     (s, (current_direction s, False, \<lparr>base = fr, overlays = [GestureError]\<rparr>))"
  by (simp add: detect_gestures_def draw_def)

theorem detect_gestures_detector_raises_witness:
  "process failing_frame = Throws \<and>
   detect_gestures failing_frame (init_gesture_control\<lparr>current_direction := Some ''LEFT''\<rparr>) =
     (init_gesture_control\<lparr>current_direction := Some ''LEFT''\<rparr>,
      (Some ''LEFT'', False, \<lparr>base = failing_frame, overlays = [GestureError]\<rparr>))"
  using detect_gestures_detector_raises
    [of failing_frame "init_gesture_control\<lparr>current_direction := Some ''LEFT''\<rparr>"]
  by (simp add: failing_frame_def)



lemma hand_step_refl: "hand_step s s"
  by (simp add: hand_step_def)

lemma hand_step_trans: "hand_step s s1 \<Longrightarrow> hand_step s1 s2 \<Longrightarrow> hand_step s s2"
  unfolding hand_step_def max_cooldown_def by (cases "current_direction s1 = current_direction s") auto

lemma process_hand_step:
  "hand_step s (fst (process_hand t fr hand (s, p, a)))"
  by (simp add: process_hand_def hand_step_def Let_def split: option.split)

lemma process_hands_step:
  "hand_step s (fst (process_hands t fr hands (s, p, a)))"
proof (induction hands arbitrary: s p a)
  case Nil
  show ?case by (simp add: hand_step_refl)
next
  case (Cons hand hands)
  obtain s1 p1 a1 where eq: "process_hand t fr hand (s, p, a) = (s1, p1, a1)"
    by (cases "process_hand t fr hand (s, p, a)") auto
  have "hand_step s s1" using process_hand_step[of s t fr hand p a] eq by simp
  moreover have "hand_step s1 (fst (process_hands t fr hands (s1, p1, a1)))" by (rule Cons.IH)
  ultimately show ?case using eq by (simp add: hand_step_trans)
qed

lemma detect_found_state_hands:
  assumes "multi_hand_landmarks res \<noteq> []"
  obtains s2 where
    "hand_step (s\<lparr>no_hand_frames := 0\<rparr>) s2"
    "current_direction (fst (detect_found res fr s)) = current_direction s2"
    "no_hand_frames (fst (detect_found res fr s)) = no_hand_frames s2"
    "gesture_cooldown (fst (detect_found res fr s)) =
       (if gesture_cooldown s2 > 0 then gesture_cooldown s2 - 1 else gesture_cooldown s2)"
proof -
  let ?s1 = "(if multi_handedness res \<noteq> []
                then s\<lparr>last_confidence := hd (multi_handedness res)\<rparr>
                else s\<lparr>last_confidence := 0\<rparr>)"
  let ?t = "(if last_confidence ?s1 > 8 / 10 then 2 / 100
             else if last_confidence ?s1 > 5 / 10 then 3 / 100
             else 5 / 100) :: real"
  let ?acc = "process_hands ?t fr (multi_hand_landmarks res)
                 (?s1\<lparr>no_hand_frames := 0\<rparr>, False, \<lparr>base = fr, overlays = []\<rparr>)"
  let ?s2 = "fst ?acc"
  have hs: "hand_step (?s1\<lparr>no_hand_frames := 0\<rparr>) ?s2" by (rule process_hands_step)
  have "hand_step (s\<lparr>no_hand_frames := 0\<rparr>) ?s2"
    using hs by (simp add: hand_step_def split: if_splits)
  moreover have "fst (detect_found res fr s) =
      (if gesture_cooldown ?s2 > 0 then ?s2\<lparr>gesture_cooldown := gesture_cooldown ?s2 - 1\<rparr> else ?s2)"
    using assms by (simp add: detect_found_def Let_def split_beta)
  ultimately show thesis using that[of ?s2] by simp
qed

lemma detect_found_no_hands:
  assumes "multi_hand_landmarks res = []"
  shows "fst (detect_found res fr s) =
     (if no_hand_frames s + 1 > max_no_hand_frames
      then s\<lparr>last_confidence := 0, previous_position := None, position_history := [],
              current_direction := None, gesture_cooldown := 0, no_hand_frames := 0\<rparr>
      else s\<lparr>last_confidence := 0, no_hand_frames := no_hand_frames s + 1,
              gesture_cooldown := (if gesture_cooldown s > 0 then gesture_cooldown s - 1
                                   else gesture_cooldown s)\<rparr>)"
  using assms by (simp add: detect_found_def Let_def reset_gesture_state_def)


lemma detect_gestures_state:
  "fst (detect_gestures fr s) =
     (case process fr of Throws \<Rightarrow> s | Found res \<Rightarrow> fst (detect_found res fr s))"
  by (simp add: detect_gestures_def split_beta split: detection.split)

lemma detect_gestures_direction:
  "fst (snd (detect_gestures fr s)) = current_direction (fst (detect_gestures fr s))"
  by (simp add: detect_gestures_def split_beta split: detection.split)

text \<open>What one frame does to the direction, the cooldown and the no-hand count.\<close>

lemma frame_with_hand:
  assumes "has_hand fr"
  obtains s2 where
    "hand_step (s\<lparr>no_hand_frames := 0\<rparr>) s2"
    "current_direction (fst (detect_gestures fr s)) = current_direction s2"
    "no_hand_frames (fst (detect_gestures fr s)) = 0"
    "gesture_cooldown (fst (detect_gestures fr s)) =
       (if gesture_cooldown s2 > 0 then gesture_cooldown s2 - 1 else gesture_cooldown s2)"
proof -
  from assms obtain res where res: "process fr = Found res" "multi_hand_landmarks res \<noteq> []"
    by (auto simp add: has_hand_def split: detection.splits)
  from detect_found_state_hands[OF res(2), of s fr] obtain s2 where s2:
    "hand_step (s\<lparr>no_hand_frames := 0\<rparr>) s2"
    "current_direction (fst (detect_found res fr s)) = current_direction s2"
    "no_hand_frames (fst (detect_found res fr s)) = no_hand_frames s2"
    "gesture_cooldown (fst (detect_found res fr s)) =
       (if gesture_cooldown s2 > 0 then gesture_cooldown s2 - 1 else gesture_cooldown s2)"
    by blast
  have "no_hand_frames s2 = 0" using s2(1) by (simp add: hand_step_def)
  with s2 res(1) show thesis using that[of s2] by (simp add: detect_gestures_state)
qed

lemma frame_without_hand:
  assumes "no_hand fr"
  shows "fst (detect_gestures fr s) =
     (if reset_fires fr s
      then s\<lparr>last_confidence := 0, previous_position := None, position_history := [],
              current_direction := None, gesture_cooldown := 0, no_hand_frames := 0\<rparr>
      else s\<lparr>last_confidence := 0, no_hand_frames := no_hand_frames s + 1,
              gesture_cooldown := (if gesture_cooldown s > 0 then gesture_cooldown s - 1
                                   else gesture_cooldown s)\<rparr>)"
proof -
  from assms obtain res where res: "process fr = Found res" "multi_hand_landmarks res = []"
    by (auto simp add: no_hand_def split: detection.splits)
  show ?thesis
    using res assms by (simp add: detect_gestures_state detect_found_no_hands reset_fires_def)
qed

lemma frame_cases:
  obtains "process fr = Throws" | "has_hand fr" | "no_hand fr"
  by (cases "process fr") (auto simp add: has_hand_def no_hand_def)

lemma reset_fires_no_hand: "reset_fires fr s \<Longrightarrow> no_hand fr"
  by (simp add: reset_fires_def)

lemma has_hand_not_no_hand: "has_hand fr \<Longrightarrow> \<not> no_hand fr"
  by (auto simp add: has_hand_def no_hand_def split: detection.splits)

text \<open>While the cooldown is positive, a processed frame keeps the direction and lowers
  the counter by one, unless the reset fires.\<close>

lemma cooling_frame:
  assumes "gesture_cooldown s > 0" "processed fr" "\<not> reset_fires fr s"
  shows "current_direction (fst (detect_gestures fr s)) = current_direction s"
    and "gesture_cooldown (fst (detect_gestures fr s)) = gesture_cooldown s - 1"
    and "0 \<le> no_hand_frames s \<Longrightarrow>
           0 \<le> no_hand_frames (fst (detect_gestures fr s)) \<and>
           no_hand_frames (fst (detect_gestures fr s)) \<le> no_hand_frames s + 1"
proof -
  have "current_direction (fst (detect_gestures fr s)) = current_direction s \<and>
        gesture_cooldown (fst (detect_gestures fr s)) = gesture_cooldown s - 1 \<and>
        (0 \<le> no_hand_frames s \<longrightarrow>
           0 \<le> no_hand_frames (fst (detect_gestures fr s)) \<and>
           no_hand_frames (fst (detect_gestures fr s)) \<le> no_hand_frames s + 1)"
  proof (cases fr rule: frame_cases)
    case 1
    with assms(2) show ?thesis by (simp add: processed_def)
  next
    case 2
    from frame_with_hand[OF 2, of s] obtain s2 where s2:
      "hand_step (s\<lparr>no_hand_frames := 0\<rparr>) s2"
      "current_direction (fst (detect_gestures fr s)) = current_direction s2"
      "no_hand_frames (fst (detect_gestures fr s)) = 0"
      "gesture_cooldown (fst (detect_gestures fr s)) =
         (if gesture_cooldown s2 > 0 then gesture_cooldown s2 - 1 else gesture_cooldown s2)"
      by blast
    from s2(1) assms(1) have "current_direction s2 = current_direction s"
      "gesture_cooldown s2 = gesture_cooldown s"
      by (simp_all add: hand_step_def)
    with s2 assms(1) show ?thesis by auto
  next
    case 3
    show ?thesis using assms(1,3) by (simp add: frame_without_hand[OF 3])
  qed
  then show "current_direction (fst (detect_gestures fr s)) = current_direction s"
    and "gesture_cooldown (fst (detect_gestures fr s)) = gesture_cooldown s - 1"
    and "0 \<le> no_hand_frames s \<Longrightarrow>
           0 \<le> no_hand_frames (fst (detect_gestures fr s)) \<and>
           no_hand_frames (fst (detect_gestures fr s)) \<le> no_hand_frames s + 1"
    by simp_all
qed

text \<open>A frame that accepts a direction change shows a hand, starts with the cooldown at
  zero or below, and ends with the counter at 3: it is set to 4 and lowered once on that
  very frame.\<close>

lemma accepting_frame:
  assumes "accepts_change fr s"
  shows "has_hand fr" and "gesture_cooldown s \<le> 0"
    and "gesture_cooldown (fst (detect_gestures fr s)) = 3"
    and "no_hand_frames (fst (detect_gestures fr s)) = 0"
proof -
  from assms have ch: "current_direction (fst (detect_gestures fr s)) \<noteq> None"
    "current_direction (fst (detect_gestures fr s)) \<noteq> current_direction s"
    by (simp_all add: accepts_change_def Let_def)
  show hh: "has_hand fr"
  proof (cases fr rule: frame_cases)
    case 1
    with ch(2) show ?thesis by (simp add: detect_gestures_state)
  next
    case 2
    then show ?thesis .
  next
    case 3
    with ch show ?thesis by (simp add: frame_without_hand split: if_splits)
  qed
  from frame_with_hand[OF hh, of s] obtain s2 where s2:
      "hand_step (s\<lparr>no_hand_frames := 0\<rparr>) s2"
      "current_direction (fst (detect_gestures fr s)) = current_direction s2"
      "no_hand_frames (fst (detect_gestures fr s)) = 0"
      "gesture_cooldown (fst (detect_gestures fr s)) =
         (if gesture_cooldown s2 > 0 then gesture_cooldown s2 - 1 else gesture_cooldown s2)"
    by blast
  from s2(1,2) ch(2) show "gesture_cooldown s \<le> 0"
    by (auto simp add: hand_step_def)
  from s2(1,2) ch(2) have "gesture_cooldown s2 = max_cooldown"
    by (auto simp add: hand_step_def)
  with s2(4) show "gesture_cooldown (fst (detect_gestures fr s)) = 3"
    by (simp add: max_cooldown_def)
  show "no_hand_frames (fst (detect_gestures fr s)) = 0" by (rule s2(3))
qed


subsection \<open>Cooldown\<close>

text \<open>
  C1 (amended). A direction change is never accepted on a frame that starts with a positive
  cooldown counter. On the frame that accepts a change the counter is set to 4 and lowered
  once, so it stands at 3 when that frame ends; each of the next three processed frames
  lowers it by exactly one and keeps the direction, and it is 0 after the third.
\<close>

theorem cooldown_debounce:
  "(gesture_cooldown s > 0 \<longrightarrow> \<not> accepts_change fr s) \<and>
   (accepts_change fr s \<and> processed f1 \<and> processed f2 \<and> processed f3 \<longrightarrow>
      gesture_cooldown (run_frames [fr] s) = 3 \<and>
      gesture_cooldown (run_frames [fr, f1] s) = 2 \<and>
      gesture_cooldown (run_frames [fr, f1, f2] s) = 1 \<and>
      gesture_cooldown (run_frames [fr, f1, f2, f3] s) = 0 \<and>
      current_direction (run_frames [fr, f1] s) = current_direction (run_frames [fr] s) \<and>
      current_direction (run_frames [fr, f1, f2] s) = current_direction (run_frames [fr] s) \<and>
      current_direction (run_frames [fr, f1, f2, f3] s) = current_direction (run_frames [fr] s))"
proof (intro conjI impI)
  assume "gesture_cooldown s > 0"
  then show "\<not> accepts_change fr s" using accepting_frame(2)[of fr s] by auto
next
  assume a: "accepts_change fr s \<and> processed f1 \<and> processed f2 \<and> processed f3"
  define s0 where "s0 = fst (detect_gestures fr s)"
  define s1 where "s1 = fst (detect_gestures f1 s0)"
  define s2 where "s2 = fst (detect_gestures f2 s1)"
  define s3 where "s3 = fst (detect_gestures f3 s2)"
  have c0: "gesture_cooldown s0 = 3" and n0: "no_hand_frames s0 = 0"
    using a accepting_frame(3,4)[of fr s] by (simp_all add: s0_def)
  have r0: "\<not> reset_fires f1 s0" using n0 by (simp add: reset_fires_def max_no_hand_frames_def)
  have c1: "gesture_cooldown s1 = 2" and d1: "current_direction s1 = current_direction s0"
    and n1: "0 \<le> no_hand_frames s1 \<and> no_hand_frames s1 \<le> 1"
    using cooling_frame[of s0 f1] a c0 n0 r0 by (simp_all add: s1_def)
  have r1: "\<not> reset_fires f2 s1" using n1 by (simp add: reset_fires_def max_no_hand_frames_def)
  have c2: "gesture_cooldown s2 = 1" and d2: "current_direction s2 = current_direction s1"
    and n2: "0 \<le> no_hand_frames s2 \<and> no_hand_frames s2 \<le> 2"
    using cooling_frame[of s1 f2] a c1 n1 r1 by (simp_all add: s2_def)
  have r2: "\<not> reset_fires f3 s2" using n2 by (simp add: reset_fires_def max_no_hand_frames_def)
  have c3: "gesture_cooldown s3 = 0" and d3: "current_direction s3 = current_direction s2"
    using cooling_frame[of s2 f3] a c2 n2 r2 by (simp_all add: s3_def)
  show "gesture_cooldown (run_frames [fr] s) = 3" using c0 by (simp add: s0_def)
  show "gesture_cooldown (run_frames [fr, f1] s) = 2" using c1 by (simp add: s0_def s1_def)
  show "gesture_cooldown (run_frames [fr, f1, f2] s) = 1"
    using c2 by (simp add: s0_def s1_def s2_def)
  show "gesture_cooldown (run_frames [fr, f1, f2, f3] s) = 0"
    using c3 by (simp add: s0_def s1_def s2_def s3_def)
  show "current_direction (run_frames [fr, f1] s) = current_direction (run_frames [fr] s)"
    using d1 by (simp add: s0_def s1_def)
  show "current_direction (run_frames [fr, f1, f2] s) = current_direction (run_frames [fr] s)"
    using d1 d2 by (simp add: s0_def s1_def s2_def)
  show "current_direction (run_frames [fr, f1, f2, f3] s) = current_direction (run_frames [fr] s)"
    using d1 d2 d3 by (simp add: s0_def s1_def s2_def s3_def)
qed

lemma seen_once_eval:
  "seen_once = \<lparr>previous_position = Some (1 / 2, 1 / 2), position_history = [(1 / 2, 1 / 2)],
     current_direction = None, gesture_cooldown = 0, no_hand_frames = 0,
     last_confidence = 9 / 10\<rparr>"
  by (simp add: seen_once_def detect_gestures_def detect_found_def process_hand_def
      hand_frame_def init_gesture_control_def Let_def mean_def draw_def max_history_def
      shorter_than_code)

lemma moved_right_eval:
  "moved_right = \<lparr>previous_position = Some (3 / 4, 1 / 2),
     position_history = [(1 / 2, 1 / 2), (1, 1 / 2)],
     current_direction = Some ''RIGHT'', gesture_cooldown = 3, no_hand_frames = 0,
     last_confidence = 9 / 10\<rparr>"
  by (simp add: moved_right_def seen_once_eval detect_gestures_def detect_found_def
      process_hand_def hand_frame_def Let_def mean_def draw_def max_history_def
      max_cooldown_def movement_direction_def shorter_than_code longer_than_code)

lemma accepts_example: "accepts_change (hand_frame (1, 1 / 2)) seen_once"
  using moved_right_eval by (simp add: accepts_change_def moved_right_def seen_once_eval)


lemma processed_empty_frame: "processed empty_frame"
  by (simp add: processed_def empty_frame_def)

lemma no_hand_empty_frame: "no_hand empty_frame"
  by (simp add: no_hand_def empty_frame_def)

theorem cooldown_debounce_witness:
  "gesture_cooldown moved_right > 0 \<and>
   \<not> accepts_change (hand_frame (0, 1 / 2)) moved_right \<and>
   accepts_change (hand_frame (1, 1 / 2)) seen_once \<and> processed empty_frame \<and>
   gesture_cooldown (run_frames [hand_frame (1, 1 / 2)] seen_once) = 3 \<and>
   gesture_cooldown
     (run_frames [hand_frame (1, 1 / 2), empty_frame, empty_frame, empty_frame] seen_once) = 0"
  using cooldown_debounce [of moved_right "hand_frame (0, 1 / 2)"]
    cooldown_debounce [of seen_once "hand_frame (1, 1 / 2)" empty_frame empty_frame empty_frame]
    accepts_example processed_empty_frame
  by (simp add: moved_right_eval)

theorem cooldown_four_frames_counterexample:
  "accepts_change (hand_frame (1, 1 / 2)) seen_once \<and>
   moved_right = fst (detect_gestures (hand_frame (1, 1 / 2)) seen_once) \<and>
   processed empty_frame \<and>
   gesture_cooldown moved_right = 3 \<and>
   gesture_cooldown (run_frames [empty_frame, empty_frame, empty_frame] moved_right) = 0"
proof -
  have "gesture_cooldown moved_right = 3" by (simp add: moved_right_eval)
  moreover have
    "gesture_cooldown (run_frames [empty_frame, empty_frame, empty_frame] moved_right) = 0"
    by (simp add: moved_right_eval frame_without_hand no_hand_empty_frame reset_fires_def
        max_no_hand_frames_def)
  moreover have "moved_right = fst (detect_gestures (hand_frame (1, 1 / 2)) seen_once)"
    by (simp add: moved_right_def)
  ultimately show ?thesis using accepts_example processed_empty_frame by blast
qed

subsection \<open>Loss of tracking\<close>

lemma no_hand_run:
  "\<forall>fr \<in> set frs. no_hand fr \<Longrightarrow> 0 \<le> no_hand_frames s \<Longrightarrow> no_hand_frames s \<le> 12 \<Longrightarrow>
   no_hand_frames (run_frames frs s) = (no_hand_frames s + int (length frs)) mod 13 \<and>
   (cleared s \<or> no_hand_frames s + int (length frs) \<ge> 13 \<longrightarrow> cleared (run_frames frs s))"
proof (induction frs arbitrary: s)
  case Nil
  then show ?case by simp
next
  case (Cons fr frs)
  let ?s1 = "fst (detect_gestures fr s)"
  have nh: "no_hand fr" and rest: "\<forall>fr \<in> set frs. no_hand fr" using Cons.prems(1) by simp_all
  show ?case
  proof (cases "no_hand_frames s = 12")
    case True
    then have s1: "no_hand_frames ?s1 = 0" "cleared ?s1"
      by (simp_all add: frame_without_hand[OF nh] reset_fires_def nh max_no_hand_frames_def
          cleared_def)
    from Cons.IH[OF rest, of ?s1] s1
    have "no_hand_frames (run_frames frs ?s1) = int (length frs) mod 13"
      "cleared (run_frames frs ?s1)" by simp_all
    moreover have "(no_hand_frames s + int (length (fr # frs))) mod 13 = int (length frs) mod 13"
      using True by (simp add: algebra_simps)
    ultimately show ?thesis by simp
  next
    case False
    with Cons.prems have lt: "no_hand_frames s < 12" by simp
    then have s1: "no_hand_frames ?s1 = no_hand_frames s + 1" "cleared s \<Longrightarrow> cleared ?s1"
      by (simp_all add: frame_without_hand[OF nh] reset_fires_def nh max_no_hand_frames_def
          cleared_def)
    from Cons.IH[OF rest, of ?s1] s1(1) lt Cons.prems(2)
    have ih: "no_hand_frames (run_frames frs ?s1) = (no_hand_frames s + 1 + int (length frs)) mod 13"
      "cleared ?s1 \<or> no_hand_frames s + 1 + int (length frs) \<ge> 13 \<longrightarrow> cleared (run_frames frs ?s1)"
      by simp_all
    show ?thesis using ih s1(2) by (auto simp add: algebra_simps)
  qed
qed

text \<open>
  C7 (amended). After more than 12 consecutive processed frames without a hand, starting
  from a no-hand count between 0 and 12 (as in every reachable state), the position
  history, the previous position, the current direction and the cooldown counter have
  their freshly initialised values. The no-hand count is 0 right after the reset and then
  counts the frames since: after \<open>n\<close> frames from a count of \<open>k\<close> it is
  \<open>(k + n) mod 13\<close>.
\<close>

theorem lost_tracking_resets:
  "\<forall>fr \<in> set frs. no_hand fr \<Longrightarrow> length frs > 12 \<Longrightarrow>
   0 \<le> no_hand_frames s \<Longrightarrow> no_hand_frames s \<le> 12 \<Longrightarrow>
   position_history (run_frames frs s) = position_history init_gesture_control \<and>
   previous_position (run_frames frs s) = previous_position init_gesture_control \<and>
   current_direction (run_frames frs s) = current_direction init_gesture_control \<and>
   gesture_cooldown (run_frames frs s) = gesture_cooldown init_gesture_control \<and>
   no_hand_frames (run_frames frs s) = (no_hand_frames s + int (length frs)) mod 13"
  using no_hand_run[of frs s] by (simp add: cleared_def init_gesture_control_def)

theorem lost_tracking_resets_witness:
  "no_hand empty_frame \<and> length (replicate 13 empty_frame) = 13 \<and>
   0 \<le> no_hand_frames moved_right \<and> no_hand_frames moved_right \<le> 12 \<and>
   current_direction moved_right = Some ''RIGHT'' \<and>
   current_direction (run_frames (replicate 13 empty_frame) moved_right) = None \<and>
   position_history (run_frames (replicate 13 empty_frame) moved_right) = [] \<and>
   no_hand_frames (run_frames (replicate 13 empty_frame) moved_right) = 0"
  using lost_tracking_resets [of "replicate 13 empty_frame" moved_right]
  by (simp add: no_hand_empty_frame moved_right_eval init_gesture_control_def)

theorem no_hand_count_counterexample:
  "no_hand empty_frame \<and> length (replicate 14 empty_frame) = 14 \<and>
   no_hand_frames (run_frames (replicate 14 empty_frame) init_gesture_control) = 1 \<and>
   no_hand_frames init_gesture_control = 0"
  using no_hand_run [of "replicate 14 empty_frame" init_gesture_control]
  by (simp add: no_hand_empty_frame init_gesture_control_def)

subsection \<open>The returned direction\<close>


lemma not_longer_than_zero: "0 \<le> t \<Longrightarrow> \<not> longer_than (0, 0) t"
  by (simp add: longer_than_code)

lemma still_frame_keeps:
  assumes "still_frame fr s"
  shows "current_direction (fst (detect_gestures fr s)) = current_direction s"
proof -
  from assms obtain res hand where
    res: "process fr = Found res" "multi_hand_landmarks res = [hand]"
    and prev: "previous_position s = Some (smoothed_with s hand)"
    by (auto simp add: still_frame_def split: detection.splits list.splits)
  show ?thesis
    using res prev
    by (simp add: detect_gestures_state detect_found_def process_hand_def Let_def
        smoothed_with_def not_longer_than_zero split_beta)
qed

text \<open>
  C9. The direction that \<open>detect_gestures\<close> returns is the stored current direction
  after the frame. Once a direction \<open>d\<close> is stored, the call returns \<open>d\<close> again unless
  this frame accepts a different direction or fires the loss-of-tracking reset; on a
  frame without a hand (or on which the detector raises) that does not fire the reset it
  returns \<open>d\<close>; on a frame with no movement it returns the stored direction; when the
  reset fires it returns \<open>None\<close>.
\<close>

theorem returned_direction_is_stored:
  "detect_gestures fr s = (s', (dir, pinch, a)) \<Longrightarrow>
   dir = current_direction s' \<and>
   (current_direction s = Some d \<longrightarrow>
      dir = Some d \<or> accepts_change fr s \<or> reset_fires fr s) \<and>
   (current_direction s = Some d \<and> \<not> has_hand fr \<and> \<not> reset_fires fr s \<longrightarrow> dir = Some d) \<and>
   (still_frame fr s \<longrightarrow> dir = current_direction s) \<and>
   (reset_fires fr s \<longrightarrow> dir = None)"
proof -
  assume eq: "detect_gestures fr s = (s', (dir, pinch, a))"
  have s': "s' = fst (detect_gestures fr s)" using eq by simp
  have dir: "dir = current_direction s'"
    using detect_gestures_direction[of fr s] eq by simp
  have keep: "current_direction s = Some d \<longrightarrow>
      dir = Some d \<or> accepts_change fr s \<or> reset_fires fr s"
  proof (cases fr rule: frame_cases)
    case 1
    then show ?thesis using dir s' by (simp add: detect_gestures_state)
  next
    case 2
    show ?thesis
    proof (cases "dir = None")
      case True
      from frame_with_hand[OF 2, of s] obtain s2 where s2:
        "hand_step (s\<lparr>no_hand_frames := 0\<rparr>) s2"
        "current_direction (fst (detect_gestures fr s)) = current_direction s2"
        by blast
      from s2 True dir s' have "current_direction s = None"
        by (auto simp add: hand_step_def)
      then show ?thesis by simp
    next
      case False
      then show ?thesis using dir s' by (auto simp add: accepts_change_def Let_def)
    qed
  next
    case 3
    then show ?thesis using dir s' by (simp add: frame_without_hand)
  qed
  have nohand: "current_direction s = Some d \<and> \<not> has_hand fr \<and> \<not> reset_fires fr s \<longrightarrow> dir = Some d"
  proof (cases fr rule: frame_cases)
    case 1
    then show ?thesis using dir s' by (simp add: detect_gestures_state)
  next
    case 2
    then show ?thesis by simp
  next
    case 3
    then show ?thesis using dir s' by (simp add: frame_without_hand)
  qed
  have reset: "reset_fires fr s \<longrightarrow> dir = None"
  proof
    assume r: "reset_fires fr s"
    then have "no_hand fr" by (rule reset_fires_no_hand)
    then show "dir = None" using r dir s' by (simp add: frame_without_hand)
  qed
  have still: "still_frame fr s \<longrightarrow> dir = current_direction s"
    using dir s' still_frame_keeps[of fr s] by simp
  show ?thesis using dir keep nohand still reset by blast
qed

lemma still_example: "still_frame (hand_frame (3 / 4, 1 / 2)) moved_right"
  by (simp add: still_frame_def hand_frame_def smoothed_with_def moved_right_eval mean_def
      max_history_def Let_def)

theorem returned_direction_is_stored_witness:
  "current_direction moved_right = Some ''RIGHT'' \<and> \<not> has_hand empty_frame \<and>
   \<not> reset_fires empty_frame moved_right \<and>
   fst (snd (detect_gestures empty_frame moved_right)) = Some ''RIGHT'' \<and>
   still_frame (hand_frame (3 / 4, 1 / 2)) moved_right \<and>
   fst (snd (detect_gestures (hand_frame (3 / 4, 1 / 2)) moved_right)) = Some ''RIGHT''"
proof -
  let ?X = "detect_gestures empty_frame moved_right"
  let ?Y = "detect_gestures (hand_frame (3 / 4, 1 / 2)) moved_right"
  have h: "current_direction moved_right = Some ''RIGHT''" "\<not> has_hand empty_frame"
    "\<not> reset_fires empty_frame moved_right"
    by (simp_all add: moved_right_eval reset_fires_def max_no_hand_frames_def has_hand_def
        empty_frame_def)
  have e1: "?X = (fst ?X, (fst (snd ?X), fst (snd (snd ?X)), snd (snd (snd ?X))))" by simp
  have e2: "?Y = (fst ?Y, (fst (snd ?Y), fst (snd (snd ?Y)), snd (snd (snd ?Y))))" by simp
  from returned_direction_is_stored [OF e1, of "''RIGHT''"] h
  have r1: "fst (snd ?X) = Some ''RIGHT''" by blast
  from returned_direction_is_stored [OF e2, of "''RIGHT''"] still_example
  have "fst (snd ?Y) = current_direction moved_right" by blast
  then have r2: "fst (snd ?Y) = Some ''RIGHT''" by (simp only: h(1))
  from h r1 still_example r2 show ?thesis by blast
qed

section \<open>Game engine\<close>


lemma next_head_front:
  "next_head g = (if wrap_around g then wrap_cell g (front_cell g) else front_cell g)"
  by (simp add: next_head_def front_cell_def wrap_cell_def split_beta Let_def)

lemma add_transition_trail_game:
  "\<exists>ps. fst (add_transition_trail x y g r) = g\<lparr>transition_particles := transition_particles g @ ps\<rparr>
      \<and> length ps = 8 \<and> (\<forall>p \<in> set ps. at_cell g x y p)"
  unfolding add_transition_trail_def by (rule add_trail_loop_game)

lemma wrap_head_cell: "fst (wrap_head c g r) = wrap_cell g c"
  by (simp add: wrap_head_def wrap_cell_def Let_def split_beta)

lemma wrap_head_in_grid: "in_grid g c \<Longrightarrow> wrap_head c g r = (c, g, r)"
  by (simp add: wrap_head_def in_grid_def)

lemma wrap_head_game:
  "\<exists>ps. fst (snd (wrap_head c g r)) = g\<lparr>transition_particles := transition_particles g @ ps\<rparr>"
proof (cases "in_grid g c")
  case True
  then have "fst (snd (wrap_head c g r)) = g\<lparr>transition_particles := transition_particles g @ []\<rparr>"
    by (simp add: wrap_head_in_grid)
  then show ?thesis by (rule exI)
next
  case False
  have tr: "\<And>x y. \<exists>ps. fst (add_transition_trail x y g r) =
      g\<lparr>transition_particles := transition_particles g @ ps\<rparr>"
    using add_transition_trail_game by blast
  show ?thesis
    using False tr by (auto simp add: wrap_head_def Let_def split_beta in_grid_def)
qed


lemma end_game_eq:
  "end_game g d =
     (g\<lparr>game_over := True, high_score := max (high_score g) (score g)\<rparr>,
      if score g > high_score g then save_high_score (g\<lparr>high_score := score g\<rparr>) d else d)"
  by (simp add: end_game_def Let_def save_high_score_def max_def)

text \<open>\<open>update\<close> of a running game in terms of \<open>move_to\<close>.\<close>

lemma update_wrap:
  assumes "\<not> game_over g" "\<not> paused g" "snake g \<noteq> []" "wrap_around g"
  shows "update g d r =
     move_to (wrap_cell g (front_cell g))
       (fst (snd (wrap_head (front_cell g) (g\<lparr>direction := next_direction g\<rparr>) r))) d
       (snd (snd (wrap_head (front_cell g) (g\<lparr>direction := next_direction g\<rparr>) r)))"
proof -
  obtain hx hy rest where sn: "snake g = (hx, hy) # rest"
    using assms(3) by (cases "snake g") auto
  have wc: "fst (wrap_head (front_cell g) (g\<lparr>direction := next_direction g\<rparr>) r) = wrap_cell g (front_cell g)"
    by (simp add: wrap_head_cell wrap_cell_def)
  show ?thesis
    using assms sn wc[symmetric]
    by (simp add: update_def Let_def split_beta front_cell_def)
qed

lemma update_classic:
  assumes "\<not> game_over g" "\<not> paused g" "snake g \<noteq> []" "\<not> wrap_around g"
  shows "update g d r =
     (if in_grid g (front_cell g) then move_to (front_cell g) (g\<lparr>direction := next_direction g\<rparr>) d r
      else Some (Returns (fst (end_game (g\<lparr>direction := next_direction g\<rparr>) d),
                          snd (end_game (g\<lparr>direction := next_direction g\<rparr>) d), r)))"
proof -
  obtain hx hy rest where sn: "snake g = (hx, hy) # rest"
    using assms(3) by (cases "snake g") auto
  show ?thesis
    using assms sn
    by (auto simp add: update_def Let_def split_beta front_cell_def in_grid_def)
qed

lemma move_to_collision:
  "c \<in> set (snake g) \<Longrightarrow>
   move_to c g d r = Some (Returns (fst (end_game g d), snd (end_game g d), r))"
  by (simp add: move_to_def split_beta)


subsection \<open>Self-collision\<close>








subsection \<open>Spawning\<close>

text \<open>A cell that a spawning loop returns is free.\<close>

lemma spawn_fruit_loop_free_aux:
  assumes "spawn_fruit_loop g r = Some res"
  shows "\<forall>c r'. res = Returns (c, r') \<longrightarrow> c \<notin> set (snake g) \<and> c \<notin> set (map pu_pos (power_ups g))"
proof (rule spawn_fruit_loop.raw_induct
    [where P = "\<lambda>g r res. \<forall>c r'. res = Returns (c, r') \<longrightarrow> c \<notin> set (snake g) \<and> c \<notin> set (map pu_pos (power_ups g))", OF _ assms],
    goal_cases)
  case (1 loop g r res)
  let ?x = "randint 0 (grid_width g - 1) r"
  let ?y = "randint 0 (grid_height g - 1) (skip_int r)"
  let ?r2 = "skip_int (skip_int r)"
  let ?free = "(?x, ?y) \<notin> set (snake g) \<and> (?x, ?y) \<notin> set (map pu_pos (power_ups g))"
  show ?case
  proof (intro allI impI)
    fix c r'
    assume res: "res = Returns (c, r')"
    from 1(2) res have gw: "\<not> grid_width g - 1 < 0" by (auto split: if_splits)
    from 1(2) res gw have gh: "\<not> grid_height g - 1 < 0" by (auto split: if_splits)
    from 1(2) gw gh
    have body: "(if ?free then Some (Returns ((?x, ?y), ?r2)) else loop g ?r2) = Some res"
      by (simp add: Let_def)
    show "c \<notin> set (snake g) \<and> c \<notin> set (map pu_pos (power_ups g))"
    proof (cases ?free)
      case True
      from body have "Some (Returns ((?x, ?y), ?r2)) = Some res" unfolding if_P[OF True] .
      with res have "c = (?x, ?y)" by simp
      with True show ?thesis by simp
    next
      case False
      from body have "loop g ?r2 = Some res" unfolding if_not_P[OF False] .
      from 1(1)[OF this] res show ?thesis by simp
    qed
  qed
qed

lemma spawn_fruit_loop_free:
  "spawn_fruit_loop g r = Some (Returns (c, r')) \<Longrightarrow> c \<notin> set (snake g) \<and> c \<notin> set (map pu_pos (power_ups g))"
  using spawn_fruit_loop_free_aux by blast

lemma spawn_power_up_loop_free_aux:
  assumes "spawn_power_up_loop g r = Some res"
  shows "\<forall>c r'. res = Returns (c, r') \<longrightarrow> c \<notin> set (snake g) \<and> c \<noteq> fruit g"
proof (rule spawn_power_up_loop.raw_induct
    [where P = "\<lambda>g r res. \<forall>c r'. res = Returns (c, r') \<longrightarrow> c \<notin> set (snake g) \<and> c \<noteq> fruit g", OF _ assms],
    goal_cases)
  case (1 loop g r res)
  let ?x = "randint 0 (grid_width g - 1) r"
  let ?y = "randint 0 (grid_height g - 1) (skip_int r)"
  let ?r2 = "skip_int (skip_int r)"
  let ?free = "(?x, ?y) \<notin> set (snake g) \<and> (?x, ?y) \<noteq> fruit g"
  show ?case
  proof (intro allI impI)
    fix c r'
    assume res: "res = Returns (c, r')"
    from 1(2) res have gw: "\<not> grid_width g - 1 < 0" by (auto split: if_splits)
    from 1(2) res gw have gh: "\<not> grid_height g - 1 < 0" by (auto split: if_splits)
    from 1(2) gw gh
    have body: "(if ?free then Some (Returns ((?x, ?y), ?r2)) else loop g ?r2) = Some res"
      by (simp add: Let_def)
    show "c \<notin> set (snake g) \<and> c \<noteq> fruit g"
    proof (cases ?free)
      case True
      from body have "Some (Returns ((?x, ?y), ?r2)) = Some res" unfolding if_P[OF True] .
      with res have "c = (?x, ?y)" by simp
      with True show ?thesis by simp
    next
      case False
      from body have "loop g ?r2 = Some res" unfolding if_not_P[OF False] .
      from 1(1)[OF this] res show ?thesis by simp
    qed
  qed
qed

lemma spawn_power_up_loop_free:
  "spawn_power_up_loop g r = Some (Returns (c, r')) \<Longrightarrow> c \<notin> set (snake g) \<and> c \<noteq> fruit g"
  using spawn_power_up_loop_free_aux by blast

lemma spawn_power_up_result:
  assumes "spawn_power_up g r = Some (Returns (g', r'))"
  shows "\<exists>c. g' = g\<lparr>power_ups := power_ups g @
                     [\<lparr>pu_pos = c, pu_type = ''star'', pu_lifespan = 200\<rparr>]\<rparr> \<and>
             c \<notin> set (snake g) \<and> c \<noteq> fruit g"
proof -
  from assms obtain c where
    l: "spawn_power_up_loop g r = Some (Returns (c, r'))"
    and g': "g' = g\<lparr>power_ups := power_ups g @
                     [\<lparr>pu_pos = c, pu_type = ''star'', pu_lifespan = 200\<rparr>]\<rparr>"
    by (auto simp add: spawn_power_up_def split: option.splits outcome.splits)
  from spawn_power_up_loop_free[OF l] g' show ?thesis by blast
qed


text \<open>Fields that particle effects and power-up pick-ups leave alone.\<close>

lemma add_particle_effect_game:
  "fst (add_particle_effect x y c g r) =
   g\<lparr>particles := particles (fst (add_particle_effect x y c g r))\<rparr>"
  unfolding add_particle_effect_def by (rule add_particle_loop_game)

lemma add_particle_effect_fields:
  "snake (fst (add_particle_effect x y c g r)) = snake g"
  "score (fst (add_particle_effect x y c g r)) = score g"
  "fruit (fst (add_particle_effect x y c g r)) = fruit g"
  "power_ups (fst (add_particle_effect x y c g r)) = power_ups g"
  "transition_particles (fst (add_particle_effect x y c g r)) = transition_particles g"
  "game_over (fst (add_particle_effect x y c g r)) = game_over g"
  "last_power_up_score (fst (add_particle_effect x y c g r)) = last_power_up_score g"
  "power_up_spawn_chance (fst (add_particle_effect x y c g r)) = power_up_spawn_chance g"
  "grid_width (fst (add_particle_effect x y c g r)) = grid_width g"
  "grid_height (fst (add_particle_effect x y c g r)) = grid_height g"
  by (subst add_particle_effect_game, simp)+

lemma power_up_collision_fields:
  "snake (fst (power_up_collision c pus g r)) = snake g \<and>
   fruit (fst (power_up_collision c pus g r)) = fruit g \<and>
   transition_particles (fst (power_up_collision c pus g r)) = transition_particles g \<and>
   game_over (fst (power_up_collision c pus g r)) = game_over g"
proof (induction pus arbitrary: g r)
  case Nil
  show ?case by simp
next
  case (Cons pu pus)
  show ?case
  proof (cases "c = pu_pos pu")
    case False
    then show ?thesis using Cons.IH[of g r] by simp
  next
    case True
    let ?e = "add_particle_effect (fst c) (snd c) YELLOW (g\<lparr>score := score g + 20\<rparr>) r"
    let ?g3 = "(fst ?e)\<lparr>power_ups := remove1 pu (power_ups (fst ?e))\<rparr>"
    have "power_up_collision c (pu # pus) g r = power_up_collision c pus ?g3 (snd ?e)"
      using True by (simp add: Let_def split_beta)
    then show ?thesis
      using Cons.IH[of ?g3 "snd ?e"] by (simp add: add_particle_effect_fields)
  qed
qed





subsection \<open>Moving the head\<close>

lemma ageing_fields:
  "snake (update_power_ups (update_particles g)) = snake g"
  "score (update_power_ups (update_particles g)) = score g"
  "fruit (update_power_ups (update_particles g)) = fruit g"
  "transition_particles (update_power_ups (update_particles g)) = transition_particles g"
  "game_over (update_power_ups (update_particles g)) = game_over g"
  by (simp_all add: update_power_ups_def update_particles_def)





subsection \<open>The left edge\<close>







subsection \<open>The spawning loops return\<close>






lemma candidate_skip_ints:
  "candidate gw gh (skip_ints (2 * n) r) k = candidate gw gh r (n + k)"
  by (simp add: candidate_def skip_ints_def algebra_simps)

lemma candidate_cong:
  "int_src r' = int_src r \<Longrightarrow> int_pos r' = int_pos r \<Longrightarrow>
   candidate gw gh r' k = candidate gw gh r k"
  by (simp add: candidate_def)







lemma wrap_head_rng:
  "int_src (snd (snd (wrap_head c g r))) = int_src r \<and>
   int_pos (snd (snd (wrap_head c g r))) = int_pos r"
  by (simp add: wrap_head_def Let_def split_beta add_transition_trail_def add_trail_loop_rng)




text \<open>A running tick whose next head cell is free is a move to that cell.\<close>

lemma update_as_move:
  assumes run: "\<not> game_over g" "\<not> paused g" "snake g \<noteq> []"
    and ok: "wrap_around g \<or> in_grid g (front_cell g)"
  shows "\<exists>g1 r1. update g d r = move_to (next_head g) g1 d r1 \<and>
           snake g1 = snake g \<and> score g1 = score g \<and> fruit g1 = fruit g \<and>
           power_ups g1 = power_ups g \<and> grid_width g1 = grid_width g \<and>
           grid_height g1 = grid_height g \<and>
           int_src r1 = int_src r \<and> int_pos r1 = int_pos r"
proof (cases "wrap_around g")
  case True
  let ?g0 = "g\<lparr>direction := next_direction g\<rparr>"
  let ?w = "wrap_head (front_cell g) ?g0 r"
  from wrap_head_game[of "front_cell g" ?g0 r] obtain ps where
    ps: "fst (snd ?w) = ?g0\<lparr>transition_particles := transition_particles ?g0 @ ps\<rparr>"
    by blast
  have "update g d r = move_to (next_head g) (fst (snd ?w)) d (snd (snd ?w))"
    using update_wrap[OF run True, of d r] True by (simp add: next_head_front)
  moreover have "snake (fst (snd ?w)) = snake g" "score (fst (snd ?w)) = score g"
    "fruit (fst (snd ?w)) = fruit g" "power_ups (fst (snd ?w)) = power_ups g"
    "grid_width (fst (snd ?w)) = grid_width g" "grid_height (fst (snd ?w)) = grid_height g"
    by (simp_all add: ps)
  ultimately show ?thesis using wrap_head_rng[of "front_cell g" ?g0 r] by blast
next
  case False
  let ?g0 = "g\<lparr>direction := next_direction g\<rparr>"
  from False ok have "in_grid g (front_cell g)" by simp
  then have "update g d r = move_to (next_head g) ?g0 d r"
    using update_classic[OF run False, of d r] False by (simp add: next_head_front)
  moreover have "snake ?g0 = snake g" "score ?g0 = score g" "fruit ?g0 = fruit g"
    "power_ups ?g0 = power_ups g" "grid_width ?g0 = grid_width g"
    "grid_height ?g0 = grid_height g"
    by simp_all
  ultimately show ?thesis by blast
qed

subsection \<open>Eating the fruit\<close>







subsection \<open>Reachable game states\<close>

text \<open>
  The hypotheses of C3 on the fruit hold in every state that the game reaches:
  \<open>reset_game\<close> establishes them and every tick that returns keeps them.
\<close>


lemma age_power_ups_positions:
  "set (map pu_pos (age_power_ups pus)) \<subseteq> set (map pu_pos pus)"
  by (induction pus) (auto simp add: Let_def)

lemma power_up_collision_positions:
  "set (map pu_pos (power_ups (fst (power_up_collision c pus g r))))
     \<subseteq> set (map pu_pos (power_ups g))"
proof (induction pus arbitrary: g r)
  case Nil
  show ?case by simp
next
  case (Cons pu pus)
  show ?case
  proof (cases "c = pu_pos pu")
    case False
    then show ?thesis using Cons.IH[of g r] by simp
  next
    case True
    let ?e = "add_particle_effect (fst c) (snd c) YELLOW (g\<lparr>score := score g + 20\<rparr>) r"
    let ?g3 = "(fst ?e)\<lparr>power_ups := remove1 pu (power_ups (fst ?e))\<rparr>"
    have eq: "power_up_collision c (pu # pus) g r = power_up_collision c pus ?g3 (snd ?e)"
      using True by (simp add: Let_def split_beta)
    have "set (map pu_pos (power_ups ?g3)) \<subseteq> set (map pu_pos (power_ups g))"
      using set_remove1_subset[of pu "power_ups g"]
      by (auto simp add: add_particle_effect_fields)
    with Cons.IH[of ?g3 "snd ?e"] eq show ?thesis by auto
  qed
qed

lemma spawn_fruit_placed:
  assumes "spawn_fruit g r = Some (Returns (g', r'))"
  shows "well_placed g'"
proof -
  from assms obtain c r1 where l: "spawn_fruit_loop g r = Some (Returns (c, r1))"
    by (auto simp add: spawn_fruit_def split: option.splits outcome.splits)
  note free = spawn_fruit_loop_free[OF l]
  let ?g1 = "g\<lparr>fruit := c\<rparr>"
  show ?thesis
  proof (cases "score g - last_power_up_score g \<ge> 30 \<and> random r1 < power_up_spawn_chance g")
    case False
    with assms l have "g' = ?g1"
      by (auto simp add: spawn_fruit_def Let_def split: if_splits)
    with free show ?thesis by (simp add: well_placed_def)
  next
    case True
    with assms l obtain g2 where
      sp: "spawn_power_up ?g1 (skip_real r1) = Some (Returns (g2, r'))"
      and g': "g' = g2\<lparr>last_power_up_score := score g2\<rparr>"
      by (auto simp add: spawn_fruit_def Let_def split: option.splits outcome.splits)
    from spawn_power_up_result[OF sp] obtain c2 where
      "g2 = ?g1\<lparr>power_ups := power_ups ?g1 @
                     [\<lparr>pu_pos = c2, pu_type = ''star'', pu_lifespan = 200\<rparr>]\<rparr>"
      "c2 \<noteq> fruit ?g1"
      by blast
    with g' free show ?thesis by (auto simp add: well_placed_def)
  qed
qed

lemma ageing_positions:
  "set (map pu_pos (power_ups (update_power_ups (update_particles g))))
     \<subseteq> set (map pu_pos (power_ups g))"
  using age_power_ups_positions[of "power_ups g"]
  by (simp add: update_power_ups_def update_particles_def)

lemma well_placed_end_game: "well_placed g \<Longrightarrow> well_placed (fst (end_game g d))"
  by (simp add: end_game_eq well_placed_def)

lemma well_placed_move_to:
  assumes wp: "well_placed g" and ret: "move_to c g d r = Some (Returns (g', d', r'))"
  shows "well_placed g'"
proof (cases "c \<in> set (snake g)")
  case True
  from move_to_collision[OF True, of d r] ret have "g' = fst (end_game g d)" by simp
  with well_placed_end_game[OF wp, of d] show ?thesis by simp
next
  case nin: False
  show ?thesis
  proof (cases "c = fruit g")
    case False
    let ?g1 = "g\<lparr>snake := butlast (c # snake g)\<rparr>"
    let ?pc = "power_up_collision c (power_ups ?g1) ?g1 r"
    let ?g7 = "update_power_ups (update_particles (fst ?pc))"
    have "move_to c g d r = Some (Returns (?g7, d, snd ?pc))"
      using nin False by (simp add: move_to_def Let_def split_beta)
    with ret have g': "g' = ?g7" by simp
    have sg: "snake g' = butlast (c # snake g)"
      using g' power_up_collision_fields[of c "power_ups ?g1" ?g1 r]
      by (simp only: ageing_fields) simp
    have sn: "set (snake g') \<subseteq> insert c (set (snake g))"
    proof
      fix x
      assume "x \<in> set (snake g')"
      then have "x \<in> set (butlast (c # snake g))" by (simp only: sg)
      then have "x \<in> set (c # snake g)" by (rule in_set_butlastD)
      then show "x \<in> insert c (set (snake g))" by simp
    qed
    have fr: "fruit g' = fruit g"
      using g' power_up_collision_fields[of c "power_ups ?g1" ?g1 r]
      by (simp add: ageing_fields)
    have "set (map pu_pos (power_ups g')) \<subseteq> set (map pu_pos (power_ups (fst ?pc)))"
      unfolding g' by (rule ageing_positions)
    also have "\<dots> \<subseteq> set (map pu_pos (power_ups ?g1))"
      by (rule power_up_collision_positions)
    finally have pu: "set (map pu_pos (power_ups g')) \<subseteq> set (map pu_pos (power_ups g))"
      by simp
    from wp False sn fr pu show ?thesis by (auto simp add: well_placed_def)
  next
    case True
    let ?g2 = "g\<lparr>snake := c # snake g, score := score g + 10\<rparr>"
    let ?e = "add_particle_effect (fst c) (snd c) RED ?g2 r"
    from ret nin True obtain g4 r4 where
      sp: "spawn_fruit (fst ?e) (snd ?e) = Some (Returns (g4, r4))"
      and g': "g' = update_power_ups (update_particles (fst (power_up_collision c (power_ups g4) g4 r4)))"
      by (auto simp add: move_to_def Let_def split_beta split: option.splits outcome.splits)
    from spawn_fruit_placed[OF sp] have w4: "well_placed g4" .
    note pf = power_up_collision_fields[of c "power_ups g4" g4 r4]
    have "set (map pu_pos (power_ups g')) \<subseteq>
          set (map pu_pos (power_ups (fst (power_up_collision c (power_ups g4) g4 r4))))"
      unfolding g' by (rule ageing_positions)
    also have "\<dots> \<subseteq> set (map pu_pos (power_ups g4))"
      by (rule power_up_collision_positions)
    finally have pu: "set (map pu_pos (power_ups g')) \<subseteq> set (map pu_pos (power_ups g4))" .
    have "fruit g' = fruit g4" "snake g' = snake g4" using g' pf by (simp_all add: ageing_fields)
    with w4 pu show ?thesis by (auto simp add: well_placed_def)
  qed
qed

text \<open>Ticks keep the fruit off the snake and off the power-ups, and a restart puts it
  there.\<close>

lemma well_placed_update:
  assumes wp: "well_placed g" and ret: "update g d r = Some (Returns (g', d', r'))"
  shows "well_placed g'"
proof (cases "game_over g \<or> paused g")
  case True
  with ret wp show ?thesis by (simp add: update_def)
next
  case False
  then have run: "\<not> game_over g" "\<not> paused g" by simp_all
  show ?thesis
  proof (cases "snake g = []")
    case True
    with ret run show ?thesis by (simp add: update_def)
  next
    case ne: False
    show ?thesis
    proof (cases "wrap_around g \<or> in_grid g (front_cell g)")
      case True
      from update_as_move[OF run ne True, of d r] obtain g1 r1 where
        mv: "update g d r = move_to (next_head g) g1 d r1"
        and g1: "snake g1 = snake g" "fruit g1 = fruit g" "power_ups g1 = power_ups g"
        by blast
      have "well_placed g1" using wp g1 by (simp add: well_placed_def)
      then show ?thesis
      proof (rule well_placed_move_to)
        show "move_to (next_head g) g1 d r1 = Some (Returns (g', d', r'))"
          using mv ret by simp
      qed
    next
      case False
      then have nw: "\<not> wrap_around g" and out: "\<not> in_grid g (front_cell g)" by simp_all
      let ?g1 = "g\<lparr>direction := next_direction g\<rparr>"
      have "well_placed ?g1" using wp by (simp add: well_placed_def)
      moreover have "g' = fst (end_game ?g1 d)"
        using update_classic[OF run ne nw, of d r] out ret by simp
      ultimately show ?thesis by (simp only: well_placed_end_game)
    qed
  qed
qed

lemma well_placed_reset_game:
  assumes "reset_game g r = Some (Returns (g', r'))"
  shows "well_placed g'"
proof (cases "grid_size g = 0")
  case True
  with assms show ?thesis by (simp add: reset_game_def)
next
  case False
  from assms show ?thesis
    unfolding reset_game_def Let_def if_not_P[OF False] by (rule spawn_fruit_placed)
qed

section \<open>Reachable gesture states\<close>

text \<open>The no-hand count starts at 0 and stays between 0 and 12, as C7 assumes.\<close>

lemma no_hand_frames_init: "no_hand_frames init_gesture_control = 0"
  by (simp add: init_gesture_control_def)


lemma no_hand_frames_bounds:
  assumes "0 \<le> no_hand_frames s" "no_hand_frames s \<le> 12"
  shows "0 \<le> no_hand_frames (fst (detect_gestures fr s)) \<and>
         no_hand_frames (fst (detect_gestures fr s)) \<le> 12"
proof (cases fr rule: frame_cases)
  case 1
  with assms show ?thesis by (simp add: detect_gestures_state)
next
  case 2
  from frame_with_hand[OF 2, of s] obtain s2 where
    "no_hand_frames (fst (detect_gestures fr s)) = 0" by blast
  then show ?thesis by simp
next
  case 3
  with assms show ?thesis
    by (simp add: frame_without_hand reset_fires_def max_no_hand_frames_def)
qed


end
